theory Spec2Isabelle
  imports Main
begin

section \<open>Liar's Poker: the rules engine of \<^verbatim>\<open>liars_poker.py\<close>\<close>

text \<open>
  The theory embeds the three classes of \<^verbatim>\<open>open_spiel/python/games/liars_poker.py\<close>:
  the game \<^verbatim>\<open>LiarsPoker\<close>, its state \<^verbatim>\<open>LiarsPokerState\<close> and the observer
  \<^verbatim>\<open>LiarsPokerObserver\<close>. Python integers are \<open>int\<close>; every exception the code can
  raise is a value of \<open>py_error\<close> and a method that can raise returns \<open>py_error + 'a\<close>.
  A private attribute \<^verbatim>\<open>_x\<close> of the state is the field \<open>p_x\<close>. The rewards
  \<^verbatim>\<open>-1.0\<close>, \<^verbatim>\<open>1.0\<close>, \<^verbatim>\<open>0.0\<close> and the entries of the history arrays and of the
  tensor, which are floating point numbers with integral values, are \<open>int\<close>.
\<close>

subsection \<open>Python values and containers\<close>

datatype py_error =
  AttributeError | IndexError | AssertionError | ZeroDivisionError | ValueError | TypeError

text \<open>
  Indexing a Python list or a numpy axis of length \<open>n\<close> at \<open>i\<close>: a negative index counts
  from the end, anything outside \<open>[-n, n)\<close> raises.
\<close>

definition py_index :: "nat \<Rightarrow> int \<Rightarrow> py_error + nat" where
  "py_index n i =
     (let j = (if i < 0 then int n + i else i)
      in if 0 \<le> j \<and> j < int n then Inr (nat j) else Inl IndexError)"

definition getitem :: "'a list \<Rightarrow> int \<Rightarrow> py_error + 'a" where
  "getitem xs i = (case py_index (length xs) i of Inl e \<Rightarrow> Inl e | Inr j \<Rightarrow> Inr (xs ! j))"

text \<open>\<^verbatim>\<open>xs[i].append(v)\<close> on a list of lists.\<close>

definition append_at :: "'a list list \<Rightarrow> int \<Rightarrow> 'a \<Rightarrow> py_error + 'a list list" where
  "append_at xss i v =
     (case py_index (length xss) i of
        Inl e \<Rightarrow> Inl e
      | Inr j \<Rightarrow> Inr (xss[j := xss ! j @ [v]]))"

text \<open>\<^verbatim>\<open>a[i][j] = v\<close> on a two-dimensional numpy array, kept as the list of its rows.\<close>

definition np_set2 :: "int list list \<Rightarrow> int \<Rightarrow> int \<Rightarrow> int \<Rightarrow> py_error + int list list" where
  "np_set2 a i j v =
     (case py_index (length a) i of
        Inl e \<Rightarrow> Inl e
      | Inr r \<Rightarrow>
          (case py_index (length (a ! r)) j of
             Inl e \<Rightarrow> Inl e
           | Inr c \<Rightarrow> Inr (a[r := (a ! r)[c := v]])))"

text \<open>\<^verbatim>\<open>np.zeros((rows, cols))\<close>: a negative dimension raises.\<close>

definition np_zeros2 :: "int \<Rightarrow> int \<Rightarrow> py_error + int list list" where
  "np_zeros2 rows cols =
     (if rows < 0 \<or> cols < 0 then Inl ValueError
      else Inr (replicate (nat rows) (replicate (nat cols) 0)))"

text \<open>\<^verbatim>\<open>range(a, b)\<close> and \<^verbatim>\<open>range(n)\<close>.\<close>

definition py_range2 :: "int \<Rightarrow> int \<Rightarrow> int list" where
  "py_range2 a b = [a..b - 1]"

definition py_range :: "int \<Rightarrow> int list" where
  "py_range n = py_range2 0 n"

text \<open>A list comprehension whose element expression can raise: the first error ends it.\<close>

fun collect :: "('a \<Rightarrow> py_error + 'b) \<Rightarrow> 'a list \<Rightarrow> py_error + 'b list" where
  "collect f [] = Inr []"
| "collect f (x # xs) =
     (case f x of
        Inl e \<Rightarrow> Inl e
      | Inr y \<Rightarrow> (case collect f xs of Inl e \<Rightarrow> Inl e | Inr ys \<Rightarrow> Inr (y # ys)))"

subsection \<open>Module constants\<close>

text \<open>\<^verbatim>\<open>class Action(enum.IntEnum)\<close>: its members compare equal to their integer values.\<close>

definition BID :: int where
  "BID = 0"

definition CHALLENGE :: int where
  "CHALLENGE = 1"

definition MAX_NUM_PLAYERS :: int where
  "MAX_NUM_PLAYERS = 10"

definition MIN_NUM_PLAYERS :: int where
  "MIN_NUM_PLAYERS = 2"

definition HAND_LENGTH :: int where
  "HAND_LENGTH = 3"

definition NUM_DIGITS :: int where
  "NUM_DIGITS = 3"

definition FULL_DECK :: "int list" where
  "FULL_DECK = [1, 2, 3, 4, 5, 6, 7, 8, 9, 0]"

subsection \<open>The game: \<^verbatim>\<open>LiarsPoker\<close>\<close>

record game =
  deck :: "int list"
  num_players :: int
  hand_length :: int
  num_digits :: int

text \<open>
  \<^verbatim>\<open>params.get(name, default=d)\<close>. \<^verbatim>\<open>params\<close> is the dictionary of the game's
  parameters, the one the constructor also hands to the base class, here a finite map
  from parameter names to integers. The \<^verbatim>\<open>get\<close> of a dictionary takes its default
  by position only: called with the keyword \<^verbatim>\<open>default=\<close> it raises \<^verbatim>\<open>TypeError\<close>
  before it looks anything up, whatever the dictionary holds.
\<close>

definition params_get :: "(string \<rightharpoonup> int) \<Rightarrow> string \<Rightarrow> int \<Rightarrow> py_error + int" where
  "params_get params name d = Inl TypeError"

text \<open>
  \<^verbatim>\<open>LiarsPoker.__init__\<close>, statement by statement: the deck, then the three
  attributes, each from one call of \<^verbatim>\<open>params.get\<close>. \<^verbatim>\<open>params=None\<close> is \<open>None\<close>,
  on which the attribute access \<^verbatim>\<open>params.get\<close> raises. The base constructor
  \<^verbatim>\<open>super().__init__\<close> belongs to the framework and is taken to accept its arguments;
  the method itself checks no range.
\<close>

definition LiarsPoker_init :: "(string \<rightharpoonup> int) option \<Rightarrow> py_error + game" where
  "LiarsPoker_init params =
     (case params of
        None \<Rightarrow> Inl AttributeError
      | Some ps \<Rightarrow>
          (case params_get ps ''num_digits'' NUM_DIGITS of
             Inl e \<Rightarrow> Inl e
           | Inr n \<Rightarrow>
               (case collect (getitem FULL_DECK) (py_range n) of
                  Inl e \<Rightarrow> Inl e
                | Inr d \<Rightarrow>
                    (case params_get ps ''num_players'' MIN_NUM_PLAYERS of
                       Inl e \<Rightarrow> Inl e
                     | Inr np \<Rightarrow>
                         (case params_get ps ''hand_length'' HAND_LENGTH of
                            Inl e \<Rightarrow> Inl e
                          | Inr hl \<Rightarrow>
                              (case params_get ps ''num_digits'' NUM_DIGITS of
                                 Inl e \<Rightarrow> Inl e
                               | Inr nd \<Rightarrow>
                                   Inr \<lparr>deck = d, num_players = np, hand_length = hl,
                                        num_digits = nd\<rparr>))))))"

subsection \<open>The state: \<^verbatim>\<open>LiarsPokerState\<close>\<close>

text \<open>
  The attributes of a state object. \<^verbatim>\<open>__init__\<close> assigns all of them but two:
  \<^verbatim>\<open>_is_terminal\<close>, which \<^verbatim>\<open>current_player\<close> reads, and \<^verbatim>\<open>actions\<close>, which
  \<^verbatim>\<open>_apply_action\<close> appends to. No method of the class assigns either; whether the
  object has them is up to the framework's base class, which is not in this file. Both
  are optional fields, \<open>None\<close> for an attribute the object does not have (reading it
  raises \<^verbatim>\<open>AttributeError\<close>), and \<open>p_is_terminal\<close> holds the truth value the
  \<^verbatim>\<open>if\<close> of \<^verbatim>\<open>current_player\<close> sees.
\<close>

record state =
  p_num_players :: int
  p_hand_length :: int
  p_num_digits :: int
  p_deck :: "int list"
  hands :: "int list list"
  bid_history :: "int list list"
  challenge_history :: "int list list"
  p_current_player :: int
  p_bid_originator :: int
  p_current_bid :: int
  p_num_challenges :: int
  is_rebid :: bool
  p_game_over :: bool
  p_winner :: int
  p_loser :: int
  p_is_terminal :: "bool option"
  actions :: "int list list option"

text \<open>
  \<^verbatim>\<open>LiarsPokerState.__init__\<close>; \<open>base_is_terminal\<close> and \<open>base_actions\<close> are the two
  attributes left to the base class.
\<close>

definition LiarsPokerState_init ::
  "game \<Rightarrow> bool option \<Rightarrow> int list list option \<Rightarrow> py_error + state" where
  "LiarsPokerState_init g base_is_terminal base_actions =
     (let total_possible_bets = hand_length g * num_digits g * num_players g
      in case np_zeros2 total_possible_bets (num_players g) of
           Inl e \<Rightarrow> Inl e
         | Inr zeros \<Rightarrow>
             Inr \<lparr>p_num_players = num_players g,
                  p_hand_length = hand_length g,
                  p_num_digits = num_digits g,
                  p_deck = deck g,
                  hands = map (\<lambda>_. []) (py_range (num_players g)),
                  bid_history = zeros,
                  challenge_history = zeros,
                  p_current_player = 0,
                  p_bid_originator = 0,
                  p_current_bid = - 1,
                  p_num_challenges = 0,
                  is_rebid = False,
                  p_game_over = False,
                  p_winner = - 1,
                  p_loser = - 1,
                  p_is_terminal = base_is_terminal,
                  actions = base_actions\<rparr>)"

text \<open>\<^verbatim>\<open>LiarsPoker.new_initial_state\<close>.\<close>

definition new_initial_state ::
  "game \<Rightarrow> bool option \<Rightarrow> int list list option \<Rightarrow> py_error + state" where
  "new_initial_state g base_is_terminal base_actions =
     LiarsPokerState_init g base_is_terminal base_actions"

text \<open>
  What \<^verbatim>\<open>current_player\<close> returns: the framework's two markers
  \<^verbatim>\<open>PlayerId.TERMINAL\<close> and \<^verbatim>\<open>PlayerId.CHANCE\<close>, or a player's number.
\<close>

datatype actor = TERMINAL | CHANCE | Player int

definition current_player :: "state \<Rightarrow> py_error + actor" where
  "current_player s =
     (case p_is_terminal s of
        None \<Rightarrow> Inl AttributeError
      | Some t \<Rightarrow>
          if t then Inr TERMINAL
          else
            (case getitem (hands s) (p_num_players s - 1) of
               Inl e \<Rightarrow> Inl e
             | Inr h \<Rightarrow>
                 if int (length h) < p_hand_length s then Inr CHANCE
                 else Inr (Player (p_current_player s))))"

text \<open>
  Modelled from the spec: \<^verbatim>\<open>is_chance_node\<close> is a method of the framework's base
  class, which is not in this file; by the framework's contract (\<open>currentActor()\<close> is
  chance, terminal or a player index) a state is a chance node when its current actor
  is the chance marker.
\<close>

definition is_chance_node :: "state \<Rightarrow> py_error + bool" where
  "is_chance_node s =
     (case current_player s of Inl e \<Rightarrow> Inl e | Inr a \<Rightarrow> Inr (a = CHANCE))"

definition is_challenge_possible :: "state \<Rightarrow> bool" where
  "is_challenge_possible s = (p_current_bid s \<noteq> - 1)"

definition is_rebid_possible :: "state \<Rightarrow> bool" where
  "is_rebid_possible s =
     (\<not> is_rebid s \<and> p_num_challenges s = p_num_players s - 1)"

definition legal_actions :: "state \<Rightarrow> int \<Rightarrow> py_error + int list" where
  "legal_actions s player =
     (if \<not> player \<ge> 0 then Inl AssertionError
      else
        Inr ((if player \<noteq> p_bid_originator s \<or> is_rebid_possible s
              then py_range2 (p_current_bid s + 1)
                     (p_hand_length s * p_num_digits s * p_num_players s)
              else [])
             @ (if is_challenge_possible s then [CHALLENGE] else [])))"

definition decode_bid :: "state \<Rightarrow> int \<Rightarrow> py_error + int \<times> int" where
  "decode_bid s bid =
     (let m = p_hand_length s * p_num_players s
      in if m = 0 then Inl ZeroDivisionError
         else
           (case getitem (p_deck s) (bid div m) of
              Inl e \<Rightarrow> Inl e
            | Inr number \<Rightarrow> Inr (bid mod m, number)))"

text \<open>The two nested iterations of \<^verbatim>\<open>_counts\<close>: the inner one over the digits of one hand.\<close>

definition count_hand :: "int \<Rightarrow> int list \<Rightarrow> int \<Rightarrow> int" where
  "count_hand bid_number hand matches =
     fold (\<lambda>digit m. if digit = bid_number then m + 1 else m) hand matches"

fun count_hands :: "int list list \<Rightarrow> int \<Rightarrow> int list \<Rightarrow> int \<Rightarrow> py_error + int" where
  "count_hands hs bid_number [] matches = Inr matches"
| "count_hands hs bid_number (player_id # rest) matches =
     (case getitem hs player_id of
        Inl e \<Rightarrow> Inl e
      | Inr hand \<Rightarrow> count_hands hs bid_number rest (count_hand bid_number hand matches))"

definition counts :: "state \<Rightarrow> py_error + state" where
  "counts s =
     (case decode_bid s (p_current_bid s) of
        Inl e \<Rightarrow> Inl e
      | Inr (bid_count, bid_number) \<Rightarrow>
          (case count_hands (hands s) bid_number (py_range (p_num_players s)) 0 of
             Inl e \<Rightarrow> Inl e
           | Inr matches \<Rightarrow>
               if matches \<ge> bid_count then Inr (s\<lparr>p_winner := p_bid_originator s\<rparr>)
               else Inr (s\<lparr>p_loser := p_bid_originator s\<rparr>)))"

definition update_bid_history :: "state \<Rightarrow> int \<Rightarrow> int \<Rightarrow> py_error + state" where
  "update_bid_history s bid player =
     (case np_set2 (bid_history s) bid player 1 of
        Inl e \<Rightarrow> Inl e
      | Inr h \<Rightarrow> Inr (s\<lparr>bid_history := h\<rparr>))"

definition update_challenge_history :: "state \<Rightarrow> int \<Rightarrow> int \<Rightarrow> py_error + state" where
  "update_challenge_history s bid player =
     (case np_set2 (challenge_history s) bid player 1 of
        Inl e \<Rightarrow> Inl e
      | Inr h \<Rightarrow> Inr (s\<lparr>challenge_history := h\<rparr>))"

text \<open>
  \<^verbatim>\<open>_apply_action\<close>, branch by branch. \<open>log_action\<close> is the statement
  \<^verbatim>\<open>self.actions[self._current_player].append(action)\<close> that opens the challenge and
  the bid branch; \<open>advance\<close> is the last line of the method, which the chance branch
  does not reach because it returns before.
\<close>

definition log_action :: "state \<Rightarrow> int \<Rightarrow> py_error + state" where
  "log_action s action =
     (case actions s of
        None \<Rightarrow> Inl AttributeError
      | Some log \<Rightarrow>
          (case append_at log (p_current_player s) action of
             Inl e \<Rightarrow> Inl e
           | Inr log' \<Rightarrow> Inr (s\<lparr>actions := Some log'\<rparr>)))"

definition advance :: "state \<Rightarrow> py_error + state" where
  "advance s =
     (if p_num_players s = 0 then Inl ZeroDivisionError
      else Inr (s\<lparr>p_current_player := (p_current_player s + 1) mod p_num_players s\<rparr>))"

definition apply_chance :: "state \<Rightarrow> int \<Rightarrow> py_error + state" where
  "apply_chance s action =
     (case append_at (hands s) (p_current_player s) action of
        Inl e \<Rightarrow> Inl e
      | Inr hs \<Rightarrow> Inr (s\<lparr>hands := hs\<rparr>))"

definition apply_challenge :: "state \<Rightarrow> int \<Rightarrow> py_error + state" where
  "apply_challenge s action =
     (case log_action s action of
        Inl e \<Rightarrow> Inl e
      | Inr s1 \<Rightarrow>
          if \<not> is_challenge_possible s1 then Inl AssertionError
          else
            (case update_challenge_history s1 (p_current_bid s1) (p_current_player s1) of
               Inl e \<Rightarrow> Inl e
             | Inr s2 \<Rightarrow>
                 (let s3 = s2\<lparr>p_num_challenges := p_num_challenges s2 + 1\<rparr>
                  in if (\<not> is_rebid s3 \<and> p_num_challenges s3 = p_num_players s3) \<or>
                        (is_rebid s3 \<and> p_num_challenges s3 = p_num_players s3 - 1)
                     then
                       (case counts s3 of
                          Inl e \<Rightarrow> Inl e
                        | Inr s4 \<Rightarrow> advance (s4\<lparr>p_game_over := True\<rparr>))
                     else advance s3)))"

definition apply_bid :: "state \<Rightarrow> int \<Rightarrow> py_error + state" where
  "apply_bid s action =
     (case log_action s action of
        Inl e \<Rightarrow> Inl e
      | Inr s1 \<Rightarrow>
          (let s2 = s1\<lparr>p_current_bid := action\<rparr>;
               s3 = (if p_current_player s2 = p_bid_originator s2
                     then s2\<lparr>is_rebid := True\<rparr>
                     else s2\<lparr>is_rebid := False\<rparr>);
               s4 = s3\<lparr>p_bid_originator := p_current_player s3\<rparr>
           in case update_bid_history s4 (p_current_bid s4) (p_current_player s4) of
                Inl e \<Rightarrow> Inl e
              | Inr s5 \<Rightarrow> advance (s5\<lparr>p_num_challenges := 0\<rparr>)))"

definition apply_action :: "state \<Rightarrow> int \<Rightarrow> py_error + state" where
  "apply_action s action =
     (case is_chance_node s of
        Inl e \<Rightarrow> Inl e
      | Inr chance \<Rightarrow>
          if chance then apply_chance s action
          else if action = CHALLENGE then apply_challenge s action
          else apply_bid s action)"

definition is_terminal :: "state \<Rightarrow> bool" where
  "is_terminal s = p_game_over s"

definition returns :: "state \<Rightarrow> int list" where
  "returns s =
     (let (bidder_reward, others_reward) =
            (if p_winner s \<noteq> - 1 then (p_num_players s - 1, - 1)
             else if p_loser s \<noteq> - 1 then (- 1 * (p_num_players s - 1), 1)
             else (0, 0))
      in map (\<lambda>player_id. if player_id \<noteq> p_bid_originator s then others_reward
                           else bidder_reward)
           (py_range (p_num_players s)))"

text \<open>A run of \<^verbatim>\<open>apply_action\<close> over a list of actions, ended by the first error.\<close>

fun apply_actions :: "state \<Rightarrow> int list \<Rightarrow> py_error + state" where
  "apply_actions s [] = Inr s"
| "apply_actions s (a # as) =
     (case apply_action s a of Inl e \<Rightarrow> Inl e | Inr s' \<Rightarrow> apply_actions s' as)"

subsection \<open>The observer: \<^verbatim>\<open>LiarsPokerObserver\<close>\<close>

text \<open>
  The framework's observation type, of which the observer reads three attributes. The
  sizes the observer is built from are natural numbers: it is modelled for the sizes a
  game has, and numpy's reading of negative shapes is left out. Its attributes
  \<^verbatim>\<open>num_players\<close> and \<^verbatim>\<open>hand_length\<close> are the fields \<open>o_num_players\<close> and
  \<open>o_hand_length\<close>.
\<close>

datatype private_info_type = NONE | SINGLE_PLAYER | ALL_PLAYERS

record iig_obs_type =
  public_info :: bool
  perfect_recall :: bool
  private_info :: private_info_type

text \<open>
  A value of \<^verbatim>\<open>self.dict\<close>: a view of \<open>sz\<close> cells of the flat tensor from
  \<open>offset\<close> on, reshaped to \<open>shape\<close>, as \<^verbatim>\<open>__init__\<close> stores it, or an object
  that \<^verbatim>\<open>set_from\<close> has bound to the key since.
\<close>

datatype entry =
  View nat nat "nat list" | Flag bool | Matrix "int list list"

record observer =
  o_num_players :: nat
  o_hand_length :: nat
  tensor :: "int list"
  dict :: "(string \<times> entry) list"

definition pieces :: "iig_obs_type \<Rightarrow> nat \<Rightarrow> nat \<Rightarrow> nat \<Rightarrow> (string \<times> nat \<times> nat list) list" where
  "pieces t np hl nd =
     [(''player'', np, [np])] @
     (if private_info t = SINGLE_PLAYER then [(''private_hand'', hl, [hl])] else []) @
     (if public_info t
      then [(''rebid_state'', 1, [1]), (''counts_state'', 1, [1])] @
           (if perfect_recall t
            then (let total_possible_rounds = hl * nd * np
                  in [(''bid_history'', total_possible_rounds * np, [total_possible_rounds, np]),
                      (''challenge_history'', total_possible_rounds * np,
                         [total_possible_rounds, np])])
            else [])
      else [])"

text \<open>The loop that cuts the flat tensor into the named views.\<close>

fun views :: "nat \<Rightarrow> (string \<times> nat \<times> nat list) list \<Rightarrow> (string \<times> entry) list" where
  "views index [] = []"
| "views index ((name, sz, shape) # ps) =
     (name, View index sz shape) # views (index + sz) ps"

definition LiarsPokerObserver_init :: "iig_obs_type \<Rightarrow> nat \<Rightarrow> nat \<Rightarrow> nat \<Rightarrow> observer" where
  "LiarsPokerObserver_init t np hl nd =
     (let ps = pieces t np hl nd;
          total_size = sum_list (map (\<lambda>(name, sz, shape). sz) ps)
      in \<lparr>o_num_players = np, o_hand_length = hl,
          tensor = replicate total_size 0, dict = views 0 ps\<rparr>)"

text \<open>\<^verbatim>\<open>key in self.dict\<close> and \<^verbatim>\<open>self.dict[key] = v\<close>.\<close>

definition has_key :: "(string \<times> entry) list \<Rightarrow> string \<Rightarrow> bool" where
  "has_key d k = (map_of d k \<noteq> None)"

fun dict_set :: "string \<Rightarrow> entry \<Rightarrow> (string \<times> entry) list \<Rightarrow> (string \<times> entry) list" where
  "dict_set k v [] = [(k, v)]"
| "dict_set k v ((k', v') # kvs) =
     (if k = k' then (k, v) # kvs else (k', v') # dict_set k v kvs)"

text \<open>
  \<^verbatim>\<open>self.dict["player"][player] = 1\<close>: the entry is a view of the tensor, so the
  assignment writes the tensor. (An entry that is not a view cannot stand under this
  key; item assignment to it would raise.)
\<close>

definition set_player :: "observer \<Rightarrow> int \<Rightarrow> py_error + observer" where
  "set_player obs player =
     (case map_of (dict obs) ''player'' of
        Some (View offset sz shape) \<Rightarrow>
          (case py_index sz player of
             Inl e \<Rightarrow> Inl e
           | Inr j \<Rightarrow> Inr (obs\<lparr>tensor := (tensor obs)[offset + j := 1]\<rparr>))
      | _ \<Rightarrow> Inl TypeError)"

text \<open>\<^verbatim>\<open>self.dict[key] = v\<close> under \<^verbatim>\<open>if key in self.dict\<close>: the key is bound anew.\<close>

definition rebind :: "string \<Rightarrow> entry \<Rightarrow> observer \<Rightarrow> observer" where
  "rebind k v obs = (if has_key (dict obs) k then obs\<lparr>dict := dict_set k v (dict obs)\<rparr> else obs)"

text \<open>
  \<^verbatim>\<open>set_from\<close>. In the private-hand branch the right-hand side is
  \<^verbatim>\<open>self.hands[player]\<close>, and the observer has no attribute \<^verbatim>\<open>hands\<close>: the class
  is defined in this file in full and assigns \<^verbatim>\<open>num_players\<close>, \<^verbatim>\<open>hand_length\<close>,
  \<^verbatim>\<open>tensor\<close> and \<^verbatim>\<open>dict\<close> only.
\<close>

definition set_from :: "observer \<Rightarrow> state \<Rightarrow> int \<Rightarrow> py_error + observer" where
  "set_from obs s player =
     (let o0 = obs\<lparr>tensor := replicate (length (tensor obs)) 0\<rparr>
      in case (if has_key (dict o0) ''player'' then set_player o0 player else Inr o0) of
           Inl e \<Rightarrow> Inl e
         | Inr o1 \<Rightarrow>
             (case (if has_key (dict o1) ''private_hand''
                    then (case getitem (hands s) player of
                            Inl e \<Rightarrow> Inl e
                          | Inr hand \<Rightarrow>
                              if length hand = o_hand_length o1 then Inl AttributeError
                              else Inr o1)
                    else Inr o1) of
                Inl e \<Rightarrow> Inl e
              | Inr o2 \<Rightarrow>
                  Inr (rebind ''challenge_history'' (Matrix (challenge_history s))
                        (rebind ''bid_history'' (Matrix (bid_history s))
                          (rebind ''counts_state'' (Flag (is_terminal s))
                            (rebind ''rebid_state'' (Flag (is_rebid s)) o2))))))"

subsection \<open>The bid codec\<close>

text \<open>
  Modelled from the spec: the code has \<^verbatim>\<open>_decode_bid\<close> only, and no encoder. By the
  spec the bid space is \<open>numDigits\<close> contiguous blocks of size
  \<open>handLength * numPlayers\<close>, one per deck digit in deck order, and within a block the
  identifier stands for \<open>count = k mod blockSize\<close>; \<open>encode(count, digitIndex)\<close> is the
  identifier at offset \<open>count\<close> of block \<open>digitIndex\<close>. \<open>digit_index\<close> is the place of a
  digit in the deck.
\<close>

definition encode_bid :: "state \<Rightarrow> int \<Rightarrow> int \<Rightarrow> int" where
  "encode_bid s count digit_index =
     digit_index * (p_hand_length s * p_num_players s) + count"

fun digit_index :: "int list \<Rightarrow> int \<Rightarrow> int" where
  "digit_index [] digit = 0"
| "digit_index (d # ds) digit = (if d = digit then 0 else 1 + digit_index ds digit)"

text \<open>A state of the game \<open>g\<close>: it carries the game's four attributes.\<close>

definition of_game :: "game \<Rightarrow> state \<Rightarrow> bool" where
  "of_game g s =
     (p_num_players s = num_players g \<and> p_hand_length s = hand_length g \<and>
      p_num_digits s = num_digits g \<and> p_deck s = deck g)"

subsection \<open>Well-formed states\<close>

text \<open>
  The size of the bid identifier space, \<^verbatim>\<open>hand_length * num_digits * num_players\<close>, which
  \<^verbatim>\<open>__init__\<close> and \<^verbatim>\<open>_legal_actions\<close> both compute.
\<close>

definition total_bids :: "state \<Rightarrow> int" where
  "total_bids s = p_hand_length s * p_num_digits s * p_num_players s"

definition matrix_shape :: "int list list \<Rightarrow> int \<Rightarrow> int \<Rightarrow> bool" where
  "matrix_shape a rows cols =
     (length a = nat rows \<and> list_all (\<lambda>row. length row = nat cols) a)"

text \<open>
  The shape of a state of a game in progress: one hand per player, a deck of
  \<open>p_num_digits\<close> symbols, two history arrays of \<open>total_bids\<close> rows and one column per
  player, the players' numbers and the bid in range, and the outcome fields as
  \<^verbatim>\<open>_apply_action\<close> keeps them (the game is over exactly when a winner or a loser is
  set, and never both). The theorems about one transition are stated for such states.
\<close>

definition well_formed :: "state \<Rightarrow> bool" where
  "well_formed s =
     (0 < p_num_players s \<and> 0 < p_hand_length s \<and> 0 \<le> p_num_digits s \<and>
      length (p_deck s) = nat (p_num_digits s) \<and>
      length (hands s) = nat (p_num_players s) \<and>
      matrix_shape (bid_history s) (total_bids s) (p_num_players s) \<and>
      matrix_shape (challenge_history s) (total_bids s) (p_num_players s) \<and>
      0 \<le> p_current_player s \<and> p_current_player s < p_num_players s \<and>
      0 \<le> p_bid_originator s \<and> p_bid_originator s < p_num_players s \<and>
      - 1 \<le> p_current_bid s \<and> p_current_bid s < total_bids s \<and>
      (\<forall>log. actions s = Some log \<longrightarrow> length log = nat (p_num_players s)) \<and>
      p_game_over s = (p_winner s \<noteq> - 1 \<or> p_loser s \<noteq> - 1) \<and>
      (p_winner s = - 1 \<or> p_loser s = - 1))"

text \<open>How often a digit occurs in all the hands together.\<close>

definition occurrences :: "state \<Rightarrow> int \<Rightarrow> int" where
  "occurrences s digit = int (count_list (concat (hands s)) digit)"

subsection \<open>Example states\<close>

text \<open>
  A game of two players with hands of one digit, over the deck \<open>[1, 2]\<close>: four bid
  identifiers, \<open>0\<close> and \<open>1\<close> for the digit 1, \<open>2\<close> and \<open>3\<close> for the digit 2.
  \<open>dealt\<close> is a state of it in which both players hold the digit 1 and nobody has bid;
  in \<open>bid_made\<close> player 0 has bid \<open>b\<close>, in \<open>challenged_once\<close> player 1 has
  challenged that bid, and in \<open>resolved\<close> player 0 has challenged it too and the game
  is over with player 0 the winner. In all of them the two attributes left to the base
  class are there: \<^verbatim>\<open>_is_terminal\<close> is false and \<^verbatim>\<open>actions\<close> holds one list of
  actions per player.
\<close>

definition small_game :: game where
  "small_game = \<lparr>deck = [1, 2], num_players = 2, hand_length = 1, num_digits = 2\<rparr>"

definition dealt :: state where
  "dealt =
     \<lparr>p_num_players = 2, p_hand_length = 1, p_num_digits = 2, p_deck = [1, 2],
      hands = [[1], [1]],
      bid_history = [[0, 0], [0, 0], [0, 0], [0, 0]],
      challenge_history = [[0, 0], [0, 0], [0, 0], [0, 0]],
      p_current_player = 0, p_bid_originator = 0, p_current_bid = - 1,
      p_num_challenges = 0, is_rebid = False, p_game_over = False,
      p_winner = - 1, p_loser = - 1,
      p_is_terminal = Some False, actions = Some [[], []]\<rparr>"

definition bid_made :: "int \<Rightarrow> state" where
  "bid_made b =
     dealt\<lparr>p_current_bid := b, p_current_player := 1,
           bid_history := (bid_history dealt)[nat b := [1, 0]],
           actions := Some [[b], []]\<rparr>"

definition challenged_once :: "int \<Rightarrow> state" where
  "challenged_once b =
     (bid_made b)\<lparr>p_num_challenges := 1, p_current_player := 0,
           challenge_history := (challenge_history dealt)[nat b := [0, 1]],
           actions := Some [[b], [CHALLENGE]]\<rparr>"

definition resolved :: "int \<Rightarrow> state" where
  "resolved b =
     (challenged_once b)\<lparr>p_num_challenges := 2, p_current_player := 1,
           challenge_history := (challenge_history dealt)[nat b := [1, 1]],
           actions := Some [[b, CHALLENGE], [CHALLENGE]],
           p_game_over := True, p_winner := 0\<rparr>"

text \<open>
  \<open>fresh\<close> is the state before any digit is dealt, and \<open>small_params\<close> the parameters
  of the game. \<open>private_observer\<close> is an observer of it that shows a player's own hand
  and the public flags: a tensor of five cells, two for the player, one for the hand
  and one for each flag.
\<close>

definition fresh :: state where
  "fresh = dealt\<lparr>hands := [[], []]\<rparr>"

definition small_params :: "string \<rightharpoonup> int" where
  "small_params = [''num_players'' \<mapsto> 2, ''hand_length'' \<mapsto> 1, ''num_digits'' \<mapsto> 2]"

definition private_observer :: observer where
  "private_observer =
     LiarsPokerObserver_init
       \<lparr>public_info = True, perfect_recall = False, private_info = SINGLE_PLAYER\<rparr> 2 1 2"

subsection \<open>Containers\<close>

lemma py_index_in_range: "0 \<le> i \<Longrightarrow> i < int n \<Longrightarrow> py_index n i = Inr (nat i)"
  by (simp add: py_index_def)

lemma getitem_in_range: "0 \<le> i \<Longrightarrow> i < int (length xs) \<Longrightarrow> getitem xs i = Inr (xs ! nat i)"
  by (simp add: getitem_def py_index_def)

lemma getitem_error: "getitem xs i = Inl e \<Longrightarrow> e = IndexError"
  by (auto simp: getitem_def py_index_def Let_def split: if_splits sum.splits)

lemma append_at_ok:
  "0 \<le> i \<Longrightarrow> i < int (length xss) \<Longrightarrow>
   append_at xss i v = Inr (xss[nat i := xss ! nat i @ [v]])"
  by (simp add: append_at_def py_index_def)

lemma collect_Inr: "(\<forall>x\<in>set xs. f x = Inr (g x)) \<Longrightarrow> collect f xs = Inr (map g xs)"
  by (induction xs) auto

lemma collect_getitem_Inl:
  "\<exists>i\<in>set js. getitem xs i = Inl IndexError \<Longrightarrow> collect (getitem xs) js = Inl IndexError"
proof (induction js)
  case Nil
  then show ?case by simp
next
  case (Cons j js)
  show ?case
  proof (cases "getitem xs j")
    case (Inl e)
    then show ?thesis using getitem_error[OF Inl] by simp
  next
    case (Inr y)
    with Cons.prems have "\<exists>i\<in>set js. getitem xs i = Inl IndexError" by auto
    from Cons.IH[OF this] Inr show ?thesis by simp
  qed
qed

lemma map_nth_upto: "n \<le> int (length xs) \<Longrightarrow> map (\<lambda>i. xs ! nat i) [0..n - 1] = take (nat n) xs"
  by (rule nth_equalityI) (auto simp: nth_upto)

lemma collect_getitem_range:
  "collect (getitem xs) (py_range n) =
     (if n \<le> int (length xs) then Inr (take (nat n) xs) else Inl IndexError)"
proof (cases "n \<le> int (length xs)")
  case True
  have "\<forall>i\<in>set (py_range n). getitem xs i = Inr (xs ! nat i)"
    using True by (auto simp: py_range_def py_range2_def getitem_in_range)
  from collect_Inr[OF this] True show ?thesis
    by (simp add: py_range_def py_range2_def map_nth_upto)
next
  case False
  then have "int (length xs) \<in> set (py_range n)"
    by (auto simp: py_range_def py_range2_def)
  moreover have "getitem xs (int (length xs)) = Inl IndexError"
    by (simp add: getitem_def py_index_def)
  ultimately have "\<exists>i\<in>set (py_range n). getitem xs i = Inl IndexError" by blast
  from collect_getitem_Inl[OF this] False show ?thesis by simp
qed

lemma np_set2_ok:
  assumes "matrix_shape a rows cols" "0 \<le> i" "i < rows" "0 \<le> j" "j < cols"
  shows "np_set2 a i j v = Inr (a[nat i := (a ! nat i)[nat j := v]])"
proof -
  from assms have i: "i < int (length a)" by (simp add: matrix_shape_def)
  with assms have "length (a ! nat i) = nat cols"
    by (simp add: matrix_shape_def list_all_length)
  with assms i show ?thesis by (simp add: np_set2_def py_index_def)
qed

lemma matrix_shape_update:
  assumes "matrix_shape a rows cols"
  shows "matrix_shape (a[i := (a ! i)[j := v]]) rows cols"
proof -
  have "length ((a[i := (a ! i)[j := v]]) ! k) = nat cols" if "k < length a" for k
    using assms that by (cases "k = i") (simp_all add: matrix_shape_def list_all_length)
  with assms show ?thesis by (simp add: matrix_shape_def list_all_length)
qed

subsection \<open>Construction and the deck\<close>

text \<open>The constructor returns for no argument: it raises on \<^verbatim>\<open>None\<close> and on every dictionary.\<close>

lemma LiarsPoker_init_raises:
  "LiarsPoker_init params = Inl (case params of None \<Rightarrow> AttributeError | Some ps \<Rightarrow> TypeError)"
  by (simp add: LiarsPoker_init_def params_get_def split: option.splits)

lemma digit_index_nth: "distinct ds \<Longrightarrow> k < length ds \<Longrightarrow> digit_index ds (ds ! k) = int k"
proof (induction ds arbitrary: k)
  case Nil
  then show ?case by simp
next
  case (Cons d ds)
  show ?case
  proof (cases k)
    case 0
    then show ?thesis by simp
  next
    case (Suc j)
    with Cons.prems have "ds ! j \<in> set ds" "d \<notin> set ds" by auto
    then have "d \<noteq> ds ! j" by auto
    with Cons Suc show ?thesis by simp
  qed
qed

lemma distinct_FULL_DECK: "distinct FULL_DECK"
  by (simp add: FULL_DECK_def)

subsection \<open>Decoding a bid and counting the hands\<close>

lemma div_block_bounds:
  fixes bid m n :: int
  assumes "0 < m" "0 \<le> bid" "bid < m * n"
  shows "0 \<le> bid div m \<and> bid div m < n"
proof
  show "0 \<le> bid div m" using assms(1,2) by (simp add: pos_imp_zdiv_nonneg_iff)
  show "bid div m < n"
  proof (rule ccontr)
    assume "\<not> bid div m < n"
    then have "n \<le> bid div m" by simp
    then have "m * n \<le> m * (bid div m)" using assms(1) by (simp add: mult_left_mono)
    also have "\<dots> \<le> bid"
      using mult_div_mod_eq[of m bid] pos_mod_sign[OF assms(1), of bid] by linarith
    finally show False using assms(3) by simp
  qed
qed

lemma total_bids_block:
  "total_bids s = (p_hand_length s * p_num_players s) * p_num_digits s"
  unfolding total_bids_def by (simp add: mult.assoc mult.left_commute[of "p_num_digits s"])

lemma decode_bid_ok:
  assumes "0 < p_hand_length s" "0 < p_num_players s"
    and "length (p_deck s) = nat (p_num_digits s)"
    and "0 \<le> bid" "bid < total_bids s"
  shows "decode_bid s bid =
    Inr (bid mod (p_hand_length s * p_num_players s),
         p_deck s ! nat (bid div (p_hand_length s * p_num_players s)))"
proof -
  let ?m = "p_hand_length s * p_num_players s"
  have m: "0 < ?m" using assms(1,2) by simp
  have "bid < ?m * p_num_digits s" using assms(5) unfolding total_bids_block .
  from div_block_bounds[OF m assms(4) this]
  have b: "0 \<le> bid div ?m" "bid div ?m < p_num_digits s" by simp_all
  then have "bid div ?m < int (length (p_deck s))" using assms(3) by simp
  from getitem_in_range[OF b(1) this] assms(1,2) show ?thesis
    by (simp add: decode_bid_def Let_def)
qed

lemma count_hand_eq: "count_hand d h m = m + int (count_list h d)"
  unfolding count_hand_def by (induction h arbitrary: m) auto

lemma count_list_concat: "int (count_list (concat xss) d) = (\<Sum>xs\<leftarrow>xss. int (count_list xs d))"
  by (induction xss) auto

lemma count_hands_eq:
  "\<forall>j\<in>set js. 0 \<le> j \<and> j < int (length hs) \<Longrightarrow>
   count_hands hs d js m = Inr (m + (\<Sum>j\<leftarrow>js. int (count_list (hs ! nat j) d)))"
  by (induction js arbitrary: m) (auto simp: getitem_in_range count_hand_eq)

lemma count_hands_all:
  assumes "length hs = nat n"
  shows "count_hands hs d (py_range n) 0 = Inr (int (count_list (concat hs) d))"
proof -
  have r: "\<forall>j\<in>set (py_range n). 0 \<le> j \<and> j < int (length hs)"
    using assms by (auto simp: py_range_def py_range2_def)
  have "map (\<lambda>j. hs ! nat j) (py_range n) = hs"
  proof (cases "0 \<le> n")
    case True
    then show ?thesis using assms map_nth_upto[of n hs] by (simp add: py_range_def py_range2_def)
  next
    case False
    then show ?thesis using assms by (simp add: py_range_def py_range2_def)
  qed
  then have "map (\<lambda>h. int (count_list h d)) (map (\<lambda>j. hs ! nat j) (py_range n)) =
             map (\<lambda>h. int (count_list h d)) hs"
    by simp
  then have "(\<Sum>j\<leftarrow>py_range n. int (count_list (hs ! nat j) d)) = (\<Sum>h\<leftarrow>hs. int (count_list h d))"
    by (simp add: comp_def)
  with count_hands_eq[OF r, of d 0] show ?thesis by (simp add: count_list_concat)
qed

lemma counts_ok:
  assumes "well_formed s" "p_current_bid s \<noteq> - 1"
  shows "counts s =
    Inr (if occurrences s (p_deck s ! nat (p_current_bid s div (p_hand_length s * p_num_players s)))
            \<ge> p_current_bid s mod (p_hand_length s * p_num_players s)
         then s\<lparr>p_winner := p_bid_originator s\<rparr> else s\<lparr>p_loser := p_bid_originator s\<rparr>)"
proof -
  from assms have b: "0 \<le> p_current_bid s" "p_current_bid s < total_bids s"
    by (auto simp: well_formed_def)
  from assms have d: "0 < p_hand_length s" "0 < p_num_players s"
    "length (p_deck s) = nat (p_num_digits s)" "length (hands s) = nat (p_num_players s)"
    by (auto simp: well_formed_def)
  show ?thesis
    by (simp add: counts_def decode_bid_ok[OF d(1,2,3) b] count_hands_all[OF d(4)] occurrences_def)
qed

subsection \<open>One step of \<^verbatim>\<open>_apply_action\<close>\<close>

lemma current_player_Player:
  "current_player s = Inr (Player p) \<Longrightarrow> p = p_current_player s \<and> is_chance_node s = Inr False"
  by (auto simp: current_player_def is_chance_node_def split: option.splits if_splits sum.splits)

lemma log_action_ok:
  assumes "well_formed s" "actions s = Some log"
  shows "log_action s a =
    Inr (s\<lparr>actions := Some (log[nat (p_current_player s) := log ! nat (p_current_player s) @ [a]])\<rparr>)"
proof -
  from assms have "0 \<le> p_current_player s" "p_current_player s < int (length log)"
    by (auto simp: well_formed_def)
  then show ?thesis using assms(2) by (simp add: log_action_def append_at_ok)
qed

lemma well_formed_log:
  "well_formed s \<Longrightarrow>
   well_formed (s\<lparr>actions := Some (log[i := l])\<rparr>) = (length log = nat (p_num_players s))"
  by (auto simp: well_formed_def total_bids_def)

lemma update_challenge_history_ok:
  assumes "well_formed s" "p_current_bid s \<noteq> - 1"
  shows "update_challenge_history s (p_current_bid s) (p_current_player s) =
    Inr (s\<lparr>challenge_history := (challenge_history s)[nat (p_current_bid s) :=
           (challenge_history s ! nat (p_current_bid s))[nat (p_current_player s) := 1]]\<rparr>)"
proof -
  from assms have "matrix_shape (challenge_history s) (total_bids s) (p_num_players s)"
    "0 \<le> p_current_bid s" "p_current_bid s < total_bids s"
    "0 \<le> p_current_player s" "p_current_player s < p_num_players s"
    by (auto simp: well_formed_def)
  from np_set2_ok[OF this] show ?thesis by (simp add: update_challenge_history_def)
qed

lemma update_bid_history_ok:
  assumes "matrix_shape (bid_history s) (total_bids s) (p_num_players s)"
    "0 \<le> b" "b < total_bids s" "0 \<le> p" "p < p_num_players s"
  shows "update_bid_history s b p =
    Inr (s\<lparr>bid_history := (bid_history s)[nat b := (bid_history s ! nat b)[nat p := 1]]\<rparr>)"
  using np_set2_ok[OF assms] by (simp add: update_bid_history_def)

lemma mod_players_range:
  fixes c n :: int
  shows "0 < n \<Longrightarrow> 0 \<le> (c + 1) mod n \<and> (c + 1) mod n < n"
  by simp

lemma apply_challenge_ok:
  assumes wf: "well_formed s" and log: "actions s = Some log" and bid: "p_current_bid s \<noteq> - 1"
  shows "\<exists>s'. apply_challenge s a = Inr s' \<and>
     challenge_history s' = (challenge_history s)[nat (p_current_bid s) :=
          (challenge_history s ! nat (p_current_bid s))[nat (p_current_player s) := 1]] \<and>
     p_num_challenges s' = p_num_challenges s + 1 \<and>
     p_current_bid s' = p_current_bid s \<and> p_bid_originator s' = p_bid_originator s \<and>
     is_rebid s' = is_rebid s \<and> hands s' = hands s \<and> bid_history s' = bid_history s \<and>
     p_num_players s' = p_num_players s \<and>
     p_current_player s' = (p_current_player s + 1) mod p_num_players s \<and>
     (if (\<not> is_rebid s \<and> p_num_challenges s + 1 = p_num_players s) \<or>
         (is_rebid s \<and> p_num_challenges s + 1 = p_num_players s - 1)
      then p_game_over s' \<and>
        (if occurrences s (p_deck s ! nat (p_current_bid s div (p_hand_length s * p_num_players s)))
              \<ge> p_current_bid s mod (p_hand_length s * p_num_players s)
         then p_winner s' = p_bid_originator s \<and> p_loser s' = p_loser s
         else p_loser s' = p_bid_originator s \<and> p_winner s' = p_winner s)
      else p_game_over s' = p_game_over s \<and> p_winner s' = p_winner s \<and> p_loser s' = p_loser s) \<and>
     (\<not> p_game_over s \<longrightarrow> well_formed s')"
proof -
  define s1 where
    "s1 = s\<lparr>actions := Some (log[nat (p_current_player s) := log ! nat (p_current_player s) @ [a]])\<rparr>"
  have l: "log_action s a = Inr s1" unfolding s1_def by (rule log_action_ok[OF wf log])
  have len: "length log = nat (p_num_players s)" using wf log by (simp add: well_formed_def)
  have wf1: "well_formed s1" unfolding s1_def using wf len by (simp add: well_formed_log)
  have bid1: "p_current_bid s1 \<noteq> - 1" using bid by (simp add: s1_def)
  define s3 where
    "s3 = s1\<lparr>challenge_history := (challenge_history s1)[nat (p_current_bid s1) :=
              (challenge_history s1 ! nat (p_current_bid s1))[nat (p_current_player s1) := 1]],
            p_num_challenges := p_num_challenges s1 + 1\<rparr>"
  have u: "update_challenge_history s1 (p_current_bid s1) (p_current_player s1) =
     Inr (s1\<lparr>challenge_history := (challenge_history s1)[nat (p_current_bid s1) :=
           (challenge_history s1 ! nat (p_current_bid s1))[nat (p_current_player s1) := 1]]\<rparr>)"
    by (rule update_challenge_history_ok[OF wf1 bid1])
  have wf3: "well_formed s3"
    using wf1 unfolding s3_def
    by (simp add: well_formed_def total_bids_def matrix_shape_update split: option.splits)
  have bid3: "p_current_bid s3 \<noteq> - 1" using bid by (simp add: s3_def s1_def)
  have np: "p_num_players s \<noteq> 0" using wf by (simp add: well_formed_def)
  have occ: "occurrences s3 d = occurrences s d" for d
    by (simp add: occurrences_def s3_def s1_def)
  have c: "counts s3 =
    Inr (if occurrences s (p_deck s ! nat (p_current_bid s div (p_hand_length s * p_num_players s)))
            \<ge> p_current_bid s mod (p_hand_length s * p_num_players s)
         then s3\<lparr>p_winner := p_bid_originator s\<rparr> else s3\<lparr>p_loser := p_bid_originator s\<rparr>)"
    using counts_ok[OF wf3 bid3] by (simp add: occ) (simp add: s3_def s1_def)
  define resolves where "resolves =
     ((\<not> is_rebid s \<and> p_num_challenges s + 1 = p_num_players s) \<or>
      (is_rebid s \<and> p_num_challenges s + 1 = p_num_players s - 1))"
  have r3: "((\<not> is_rebid s3 \<and> p_num_challenges s3 = p_num_players s3) \<or>
            (is_rebid s3 \<and> p_num_challenges s3 = p_num_players s3 - 1)) = resolves"
    unfolding resolves_def by (simp add: s3_def s1_def)
  have step: "apply_challenge s a =
    (if resolves
     then (case counts s3 of Inl e \<Rightarrow> Inl e | Inr s4 \<Rightarrow> advance (s4\<lparr>p_game_over := True\<rparr>))
     else advance s3)"
    using bid1 unfolding apply_challenge_def l
    by (simp add: u is_challenge_possible_def Let_def s3_def[symmetric] r3 del: One_nat_def)
  have np': "0 < p_num_players s" using wf by (simp add: well_formed_def)
  note md = mod_players_range[OF np', of "p_current_player s"]
  have wfn: "well_formed (s3\<lparr>p_current_player := (p_current_player s + 1) mod p_num_players s\<rparr>)"
    using wf3 md
    by (simp add: well_formed_def total_bids_def s3_def s1_def split: option.splits)
  have wfw: "well_formed (s3\<lparr>p_winner := p_bid_originator s, p_game_over := True,
        p_current_player := (p_current_player s + 1) mod p_num_players s\<rparr>)"
    and wfl: "well_formed (s3\<lparr>p_loser := p_bid_originator s, p_game_over := True,
        p_current_player := (p_current_player s + 1) mod p_num_players s\<rparr>)"
    if "\<not> p_game_over s"
    using wf3 md that
    by (auto simp: well_formed_def total_bids_def s3_def s1_def split: option.splits)
  show ?thesis
  proof (cases resolves)
    case True
    then show ?thesis
      unfolding step c resolves_def[symmetric]
      using wfw wfl by (simp add: advance_def np) (simp add: s3_def s1_def np)
  next
    case False
    then show ?thesis
      unfolding step resolves_def[symmetric]
      using wfn by (simp add: advance_def np) (simp add: s3_def s1_def np)
  qed
qed

subsection \<open>The branches of \<^verbatim>\<open>_apply_action\<close> on well-formed states\<close>

lemma apply_bid_ok:
  assumes wf: "well_formed s" and log: "actions s = Some log"
    and a: "0 \<le> a" "a < total_bids s"
  shows "\<exists>s'. apply_bid s a = Inr s' \<and>
     p_current_bid s' = a \<and>
     bid_history s' = (bid_history s)[nat a :=
          (bid_history s ! nat a)[nat (p_current_player s) := 1]] \<and>
     is_rebid s' = (p_current_player s = p_bid_originator s) \<and>
     p_bid_originator s' = p_current_player s \<and>
     p_num_challenges s' = 0 \<and>
     p_current_player s' = (p_current_player s + 1) mod p_num_players s \<and>
     hands s' = hands s \<and> challenge_history s' = challenge_history s \<and>
     p_game_over s' = p_game_over s \<and> p_winner s' = p_winner s \<and> p_loser s' = p_loser s \<and>
     well_formed s'"
proof -
  define s1 where
    "s1 = s\<lparr>actions := Some (log[nat (p_current_player s) := log ! nat (p_current_player s) @ [a]])\<rparr>"
  have l: "log_action s a = Inr s1" unfolding s1_def by (rule log_action_ok[OF wf log])
  have len: "length log = nat (p_num_players s)" using wf log by (simp add: well_formed_def)
  have wf1: "well_formed s1" unfolding s1_def using wf len by (simp add: well_formed_log)
  define s4 where
    "s4 = s1\<lparr>p_current_bid := a, is_rebid := (p_current_player s = p_bid_originator s),
             p_bid_originator := p_current_player s\<rparr>"
  have s4: "apply_bid s a =
     (case update_bid_history s4 (p_current_bid s4) (p_current_player s4) of
        Inl e \<Rightarrow> Inl e
      | Inr s5 \<Rightarrow> advance (s5\<lparr>p_num_challenges := 0\<rparr>))"
    unfolding apply_bid_def l by (simp add: Let_def s4_def s1_def)
  have m: "matrix_shape (bid_history s4) (total_bids s4) (p_num_players s4)"
    "0 \<le> p_current_player s4" "p_current_player s4 < p_num_players s4"
    using wf by (simp_all add: s4_def s1_def well_formed_def total_bids_def)
  have a4: "p_current_bid s4 = a" "total_bids s4 = total_bids s"
    by (simp_all add: s4_def s1_def total_bids_def)
  have u: "update_bid_history s4 (p_current_bid s4) (p_current_player s4) =
    Inr (s4\<lparr>bid_history := (bid_history s4)[nat a := (bid_history s4 ! nat a)[nat (p_current_player s4) := 1]]\<rparr>)"
    unfolding a4 using update_bid_history_ok[OF m(1) a(1) _ m(2,3)] a(2) by (simp add: a4)
  have np: "0 < p_num_players s" using wf by (simp add: well_formed_def)
  have step: "apply_bid s a =
     advance (s4\<lparr>bid_history := (bid_history s4)[nat a := (bid_history s4 ! nat a)[nat (p_current_player s4) := 1]],
                p_num_challenges := 0\<rparr>)"
    unfolding s4 u by simp
  have wfr: "well_formed (s4\<lparr>bid_history := (bid_history s4)[nat a := (bid_history s4 ! nat a)[nat (p_current_player s4) := 1]],
                p_num_challenges := 0,
                p_current_player := (p_current_player s + 1) mod p_num_players s\<rparr>)"
    using wf1 a mod_players_range[OF np, of "p_current_player s"]
    by (simp add: well_formed_def total_bids_def s4_def s1_def matrix_shape_update
        split: option.splits)
  show ?thesis
    unfolding step using np wfr
    by (simp add: advance_def) (simp add: s4_def s1_def)
qed

lemma bid_dispatch:
  "current_player s = Inr (Player p) \<Longrightarrow> a \<noteq> CHALLENGE \<Longrightarrow> apply_action s a = apply_bid s a"
  by (simp add: apply_action_def current_player_Player)

lemma challenge_dispatch:
  "current_player s = Inr (Player p) \<Longrightarrow> apply_action s CHALLENGE = apply_challenge s CHALLENGE"
  by (simp add: apply_action_def current_player_Player)

lemma chance_dispatch:
  "current_player s = Inr CHANCE \<Longrightarrow> apply_action s a = apply_chance s a"
  by (simp add: apply_action_def is_chance_node_def)

lemma apply_chance_ok:
  assumes "well_formed s"
  shows "apply_chance s a =
    Inr (s\<lparr>hands := (hands s)[nat (p_current_player s) :=
                 hands s ! nat (p_current_player s) @ [a]]\<rparr>)"
proof -
  from assms have "0 \<le> p_current_player s" "p_current_player s < int (length (hands s))"
    by (auto simp: well_formed_def)
  then show ?thesis by (simp add: apply_chance_def append_at_ok)
qed

lemma well_formed_hands:
  "well_formed s \<Longrightarrow> length hs = length (hands s) \<Longrightarrow> well_formed (s\<lparr>hands := hs\<rparr>)"
  by (simp add: well_formed_def total_bids_def)

lemma matrix_shape_zeros:
  "0 \<le> rows \<Longrightarrow> matrix_shape (replicate (nat rows) (replicate (nat cols) 0)) rows cols"
  by (simp add: matrix_shape_def list_all_length)

lemma bid_transition:
  assumes wf: "well_formed s"
    and actor: "current_player s = Inr (Player p)"
    and log: "actions s = Some log"
    and b: "p_current_bid s < b" "b < total_bids s" "b \<noteq> CHALLENGE"
  shows "\<exists>s'. apply_action s b = Inr s' \<and>
     p_current_bid s' = b \<and>
     bid_history s' = (bid_history s)[nat b := (bid_history s ! nat b)[nat p := 1]] \<and>
     is_rebid s' = (p = p_bid_originator s) \<and>
     p_bid_originator s' = p \<and>
     p_num_challenges s' = 0 \<and>
     p_current_player s' = (p + 1) mod p_num_players s"
proof -
  from current_player_Player[OF actor] have p: "p = p_current_player s" by simp
  from wf b(1) have "0 \<le> b" by (simp add: well_formed_def)
  from apply_bid_ok[OF wf log this b(2)] bid_dispatch[OF actor b(3)] show ?thesis
    unfolding p by auto
qed

text \<open>
  The challenge branch on a well-formed state that is not over, in which a player is
  to act, the log of actions is there and a bid stands.
\<close>

lemma challenge_branch_transition:
  assumes wf: "well_formed s"
    and actor: "current_player s = Inr (Player p)"
    and log: "actions s = Some log"
    and bid: "p_current_bid s \<noteq> - 1"
    and live: "\<not> p_game_over s"
  shows "\<exists>s'. apply_action s CHALLENGE = Inr s' \<and>
     challenge_history s' = (challenge_history s)[nat (p_current_bid s) :=
          (challenge_history s ! nat (p_current_bid s))[nat p := 1]] \<and>
     p_num_challenges s' = p_num_challenges s + 1 \<and>
     p_current_bid s' = p_current_bid s \<and> p_bid_originator s' = p_bid_originator s \<and>
     is_rebid s' = is_rebid s \<and>
     p_game_over s' =
       ((\<not> is_rebid s \<and> p_num_challenges s' = p_num_players s) \<or>
        (is_rebid s \<and> p_num_challenges s' = p_num_players s - 1)) \<and>
     (if p_game_over s'
      then if occurrences s (p_deck s ! nat (p_current_bid s div (p_hand_length s * p_num_players s)))
                \<ge> p_current_bid s mod (p_hand_length s * p_num_players s)
           then p_winner s' = p_bid_originator s \<and> p_loser s' = - 1
           else p_loser s' = p_bid_originator s \<and> p_winner s' = - 1
      else p_winner s' = - 1 \<and> p_loser s' = - 1 \<and>
           p_current_player s' = (p + 1) mod p_num_players s)"
proof -
  from current_player_Player[OF actor]
  have p: "p = p_current_player s" and nc: "is_chance_node s = Inr False" by simp_all
  have a: "apply_action s CHALLENGE = apply_challenge s CHALLENGE"
    by (simp add: apply_action_def nc)
  from wf live have out: "p_winner s = - 1" "p_loser s = - 1"
    by (auto simp: well_formed_def)
  from apply_challenge_ok[OF wf log bid, of CHALLENGE] obtain s' where
    s': "apply_challenge s CHALLENGE = Inr s'"
    and h: "challenge_history s' = (challenge_history s)[nat (p_current_bid s) :=
          (challenge_history s ! nat (p_current_bid s))[nat (p_current_player s) := 1]]"
    and n: "p_num_challenges s' = p_num_challenges s + 1"
    and fr0: "p_current_bid s' = p_current_bid s" "p_bid_originator s' = p_bid_originator s"
      "is_rebid s' = is_rebid s"
    and fr: "p_current_player s' = (p_current_player s + 1) mod p_num_players s"
    and res: "if (\<not> is_rebid s \<and> p_num_challenges s + 1 = p_num_players s) \<or>
         (is_rebid s \<and> p_num_challenges s + 1 = p_num_players s - 1)
      then p_game_over s' \<and>
        (if occurrences s (p_deck s ! nat (p_current_bid s div (p_hand_length s * p_num_players s)))
              \<ge> p_current_bid s mod (p_hand_length s * p_num_players s)
         then p_winner s' = p_bid_originator s \<and> p_loser s' = p_loser s
         else p_loser s' = p_bid_originator s \<and> p_winner s' = p_winner s)
      else p_game_over s' = p_game_over s \<and> p_winner s' = p_winner s \<and> p_loser s' = p_loser s"
    by blast
  show ?thesis
  proof (intro exI conjI)
    show "apply_action s CHALLENGE = Inr s'" using a s' by simp
    show "challenge_history s' = (challenge_history s)[nat (p_current_bid s) :=
          (challenge_history s ! nat (p_current_bid s))[nat p := 1]]" using h p by simp
    show "p_num_challenges s' = p_num_challenges s + 1" by (rule n)
    show "p_current_bid s' = p_current_bid s" "p_bid_originator s' = p_bid_originator s"
      "is_rebid s' = is_rebid s" by (rule fr0)+
    show "p_game_over s' =
       ((\<not> is_rebid s \<and> p_num_challenges s' = p_num_players s) \<or>
        (is_rebid s \<and> p_num_challenges s' = p_num_players s - 1))"
      using res live unfolding n by (auto split: if_splits)
    show "if p_game_over s'
      then if occurrences s (p_deck s ! nat (p_current_bid s div (p_hand_length s * p_num_players s)))
                \<ge> p_current_bid s mod (p_hand_length s * p_num_players s)
           then p_winner s' = p_bid_originator s \<and> p_loser s' = - 1
           else p_loser s' = p_bid_originator s \<and> p_winner s' = - 1
      else p_winner s' = - 1 \<and> p_loser s' = - 1 \<and>
           p_current_player s' = (p + 1) mod p_num_players s"
      using res live out fr p by (auto split: if_splits)
  qed
qed

section \<open>Well-formedness is kept\<close>

text \<open>
  The initial state of a game with at least one player, hands of at least one digit and
  a deck of \<open>num_digits\<close> symbols is well-formed, and a successful \<^verbatim>\<open>_apply_action\<close>
  with an action in \<open>[0, total_bids)\<close> on a well-formed state that is not over gives a
  well-formed state.
\<close>

lemma new_initial_state_well_formed:
  assumes g: "0 < num_players g" "0 < hand_length g" "0 \<le> num_digits g"
      "length (deck g) = nat (num_digits g)"
    and log: "\<forall>log. base_actions = Some log \<longrightarrow> length log = nat (num_players g)"
  shows "\<exists>s. new_initial_state g base_is_terminal base_actions = Inr s \<and> well_formed s \<and>
     of_game g s \<and> hands s = replicate (nat (num_players g)) [] \<and> p_current_player s = 0 \<and>
     p_current_bid s = - 1 \<and> \<not> p_game_over s \<and> p_is_terminal s = base_is_terminal"
proof -
  have t: "0 \<le> hand_length g * num_digits g * num_players g" using g by simp
  have h: "map (\<lambda>_. []) (py_range (num_players g)) = replicate (nat (num_players g)) ([]::int list)"
    using g(1) by (simp add: py_range_def py_range2_def map_replicate_const)
  have z: "np_zeros2 (hand_length g * num_digits g * num_players g) (num_players g) =
     Inr (replicate (nat (hand_length g * num_digits g * num_players g))
            (replicate (nat (num_players g)) 0))"
    using t g(1) by (simp add: np_zeros2_def)
  have t': "- 1 < hand_length g * num_digits g * num_players g" using t by linarith
  show ?thesis
    using g log t' matrix_shape_zeros[OF t, of "num_players g"]
    by (simp add: new_initial_state_def LiarsPokerState_init_def Let_def z h well_formed_def
        total_bids_def of_game_def)
qed

lemma apply_action_well_formed:
  assumes wf: "well_formed s" and live: "\<not> p_game_over s" and a: "0 \<le> a" "a < total_bids s"
    and step: "apply_action s a = Inr s'"
  shows "well_formed s'"
proof -
  from step obtain chance where c: "is_chance_node s = Inr chance"
    by (cases "is_chance_node s") (simp_all add: apply_action_def)
  show ?thesis
  proof (cases chance)
    case True
    with c step have "apply_chance s a = Inr s'" by (simp add: apply_action_def)
    with apply_chance_ok[OF wf, of a] wf show ?thesis
      by (auto intro: well_formed_hands)
  next
    case False
    have "actions s \<noteq> None"
    proof
      assume "actions s = None"
      then have "apply_challenge s a = Inl AttributeError" "apply_bid s a = Inl AttributeError"
        by (simp_all add: apply_challenge_def apply_bid_def log_action_def)
      with step c False show False by (simp add: apply_action_def split: if_splits)
    qed
    then obtain log where log: "actions s = Some log" by auto
    show ?thesis
    proof (cases "a = CHALLENGE")
      case True
      with c False step have s: "apply_challenge s a = Inr s'" by (simp add: apply_action_def)
      have "p_current_bid s \<noteq> - 1"
      proof
        assume "p_current_bid s = - 1"
        then have "apply_challenge s a = Inl AssertionError"
          using log_action_ok[OF wf log, of a]
          by (simp add: apply_challenge_def is_challenge_possible_def)
        with s show False by simp
      qed
      from apply_challenge_ok[OF wf log this, of a] s live show ?thesis by auto
    next
      case neq: False
      with c False step have s: "apply_bid s a = Inr s'" by (simp add: apply_action_def)
      from apply_bid_ok[OF wf log a] s show ?thesis by auto
    qed
  qed
qed

section \<open>The claims\<close>

text \<open>
  The closed statements below are evaluated with the definitions of the example states
  and of the steps of \<^verbatim>\<open>_apply_action\<close>.
\<close>

lemmas example_defs = dealt_def fresh_def bid_made_def challenged_once_def resolved_def
  small_game_def CHALLENGE_def

lemmas step_defs = apply_action_def is_chance_node_def current_player_def apply_chance_def
  apply_challenge_def apply_bid_def log_action_def append_at_def getitem_def py_index_def
  advance_def update_bid_history_def update_challenge_history_def np_set2_def
  is_challenge_possible_def counts_def decode_bid_def count_hand_def py_range_def py_range2_def

lemma upto_0_1: "[0..1::int] = [0, 1]"
  by (simp add: upto.simps)

subsection \<open>C1: dealing\<close>

text \<open>
  The chance branch of \<^verbatim>\<open>_apply_action\<close> appends to the hand of
  \<^verbatim>\<open>self._current_player\<close> and returns before the last line of the method, which
  alone changes the current player. From a state with player 0 to act and the last
  hand empty, every list of chance outcomes therefore lands in the hand of player 0 and
  the state stays a chance node, however long the list.
\<close>

lemma dealing_never_ends:
  assumes "p_is_terminal s = Some False" "p_current_player s = 0"
    and "length (hands s) = nat (p_num_players s)" "2 \<le> p_num_players s"
    and "0 < p_hand_length s" "hands s ! nat (p_num_players s - 1) = []"
  shows "apply_actions s ds = Inr (s\<lparr>hands := (hands s)[0 := hands s ! 0 @ ds]\<rparr>) \<and>
         current_player (s\<lparr>hands := (hands s)[0 := hands s ! 0 @ ds]\<rparr>) = Inr CHANCE"
  using assms
proof (induction ds arbitrary: s)
  case Nil
  then have "getitem (hands s) (p_num_players s - 1) = Inr []"
    by (simp add: getitem_in_range)
  with Nil show ?case by (simp add: current_player_def)
next
  case (Cons d ds)
  let ?s = "s\<lparr>hands := (hands s)[0 := hands s ! 0 @ [d]]\<rparr>"
  have "getitem (hands s) (p_num_players s - 1) = Inr []"
    using Cons.prems by (simp add: getitem_in_range)
  then have ch: "is_chance_node s = Inr True"
    using Cons.prems by (simp add: is_chance_node_def current_player_def)
  have st: "apply_action s d = Inr ?s"
    using Cons.prems by (simp add: apply_action_def ch apply_chance_def append_at_ok)
  have pre: "p_is_terminal ?s = Some False" "p_current_player ?s = 0"
    "length (hands ?s) = nat (p_num_players ?s)" "2 \<le> p_num_players ?s"
    "0 < p_hand_length ?s" "hands ?s ! nat (p_num_players ?s - 1) = []"
    using Cons.prems by simp_all
  have "(hands ?s)[0 := hands ?s ! 0 @ ds] = (hands s)[0 := hands s ! 0 @ d # ds]"
    using Cons.prems by simp
  with Cons.IH[OF pre] st show ?case by simp
qed

text \<open>
  C1 (the claim: each chance outcome goes to the first player whose hand is incomplete,
  and dealing ends after exactly \<open>num_players * hand_length\<close> chance actions). In the
  game of two players with hands of one digit, the initial state is \<open>fresh\<close>; after the
  two chance outcomes 2 and 2 the hands are \<open>[[2, 2], []]\<close>, not \<open>[[2], [2]]\<close>, and
  the current actor is still the chance marker. This is with \<^verbatim>\<open>_is_terminal\<close> false;
  with the attribute missing the first outcome raises, and with the attribute true the
  outcomes are not dealt at all and both hands stay empty.
\<close>

theorem deal_fills_first_hand_only:
  "new_initial_state small_game (Some False) (Some [[], []]) = Inr fresh \<and>
   apply_actions fresh [2, 2] = Inr (fresh\<lparr>hands := [[2, 2], []]\<rparr>) \<and>
   current_player (fresh\<lparr>hands := [[2, 2], []]\<rparr>) = Inr CHANCE \<and>
   apply_actions (fresh\<lparr>p_is_terminal := None\<rparr>) [2, 2] = Inl AttributeError \<and>
   map_sum id hands (apply_actions (fresh\<lparr>p_is_terminal := Some True\<rparr>) [2, 2]) =
     Inr [[], []]"
  by (simp add: new_initial_state_def LiarsPokerState_init_def np_zeros2_def example_defs
      step_defs upto_0_1 numeral_2_eq_2 numeral_eq_Suc)

subsection \<open>C2: the bid transition\<close>

text \<open>
  C2 (the claim: every legal bid \<open>b\<close> becomes the current bid, is recorded in the bid
  history, and so on). \<^verbatim>\<open>_apply_action\<close> tests \<^verbatim>\<open>action == Action.CHALLENGE\<close>
  before it treats the action as a bid, and \<^verbatim>\<open>Action.CHALLENGE\<close> is the integer 1.
  In \<open>bid_made 0\<close> player 0 has bid 0 and player 1 is to act; the legal actions are
  the bids 1, 2, 3 and the challenge. Applying the bid 1 runs the challenge branch: the
  result is \<open>challenged_once 0\<close>, in which the current bid is still 0, the bid history
  is unchanged, and a challenge of player 1 against the bid 0 is recorded. For every
  other bid above the current one the transition is the one the claim describes
  (\<open>bid_transition\<close>).
\<close>

theorem bid_one_runs_challenge:
  "legal_actions (bid_made 0) 1 = Inr [1, 2, 3, CHALLENGE] \<and>
   current_player (bid_made 0) = Inr (Player 1) \<and>
   apply_action (bid_made 0) 1 = Inr (challenged_once 0) \<and>
   p_current_bid (challenged_once 0) = 0 \<and>
   bid_history (challenged_once 0) = bid_history (bid_made 0) \<and>
   challenge_history (challenged_once 0) = [[0, 1], [0, 0], [0, 0], [0, 0]] \<and>
   p_num_challenges (challenged_once 0) = 1"
  by (simp add: legal_actions_def is_rebid_possible_def example_defs step_defs upto.simps)

theorem bid_one_runs_challenge_witness:
  "apply_action (bid_made 0) 1 = Inr (challenged_once 0) \<and>
   p_current_bid (challenged_once 0) \<noteq> 1"
  using bid_one_runs_challenge by simp

subsection \<open>C3: the challenge transition\<close>

text \<open>
  \<^verbatim>\<open>_apply_action\<close> begins with \<^verbatim>\<open>self.is_chance_node()\<close>, that is with
  \<^verbatim>\<open>current_player\<close>, which reads \<^verbatim>\<open>self._is_terminal\<close>, and its challenge branch
  begins with \<^verbatim>\<open>self.actions[self._current_player].append(action)\<close>. No method of
  the class assigns either attribute. On a state without \<^verbatim>\<open>_is_terminal\<close> every
  action raises, and on a state without \<^verbatim>\<open>actions\<close> that is no chance node the
  challenge raises.
\<close>

lemma apply_action_without_is_terminal:
  "p_is_terminal s = None \<Longrightarrow> apply_action s a = Inl AttributeError"
  by (simp add: apply_action_def is_chance_node_def current_player_def)

lemma challenge_without_actions:
  "actions s = None \<Longrightarrow> is_chance_node s = Inr False \<Longrightarrow>
   apply_action s CHALLENGE = Inl AttributeError"
  by (simp add: apply_action_def apply_challenge_def log_action_def)

text \<open>
  Nor does a base class that provides the two attributes help: \<^verbatim>\<open>_apply_action\<close>
  never changes \<^verbatim>\<open>_is_terminal\<close>, so from the initial state of a game of two or more
  players no run of actions reaches a state in which a player is to act. Without the
  attribute the current actor cannot be read; with the attribute true it is the
  terminal marker for ever; with the attribute false dealing never ends.
\<close>

lemma apply_action_keeps_is_terminal:
  assumes "apply_action s a = Inr s'"
  shows "p_is_terminal s' = p_is_terminal s"
proof -
  have c: "apply_chance s a = Inr s' \<Longrightarrow> ?thesis"
    by (auto simp: apply_chance_def split: sum.splits)
  have l: "log_action s a = Inr s1 \<Longrightarrow> p_is_terminal s1 = p_is_terminal s" for s1
    by (auto simp: log_action_def split: option.splits sum.splits)
  have v: "advance s1 = Inr s2 \<Longrightarrow> p_is_terminal s2 = p_is_terminal s1" for s1 s2
    by (auto simp: advance_def split: if_splits)
  have k: "counts s1 = Inr s2 \<Longrightarrow> p_is_terminal s2 = p_is_terminal s1" for s1 s2
    by (auto simp: counts_def split: sum.splits prod.splits if_splits)
  have h: "apply_challenge s a = Inr s' \<Longrightarrow> ?thesis"
    unfolding apply_challenge_def Let_def
    by (auto simp: update_challenge_history_def dest!: l v k split: sum.splits if_splits)
  have b: "apply_bid s a = Inr s' \<Longrightarrow> ?thesis"
    unfolding apply_bid_def Let_def
    by (auto simp: update_bid_history_def dest!: l v split: sum.splits if_splits)
  from assms c h b show ?thesis
    by (auto simp: apply_action_def split: sum.splits if_splits)
qed

lemma apply_actions_keeps_is_terminal:
  "apply_actions s as = Inr s' \<Longrightarrow> p_is_terminal s' = p_is_terminal s"
proof (induction as arbitrary: s)
  case Nil
  then show ?case by simp
next
  case (Cons a as)
  then obtain s1 where s1: "apply_action s a = Inr s1" "apply_actions s1 as = Inr s'"
    by (auto split: sum.splits)
  from Cons.IH[OF s1(2)] apply_action_keeps_is_terminal[OF s1(1)] show ?case by simp
qed

lemma no_player_ever_acts:
  assumes init: "new_initial_state g base_is_terminal base_actions = Inr s0"
    and g: "2 \<le> num_players g" "0 < hand_length g"
    and run: "apply_actions s0 as = Inr s"
  shows "current_player s \<noteq> Inr (Player p)"
proof -
  from init have f: "p_is_terminal s0 = base_is_terminal" "p_current_player s0 = 0"
    "hands s0 = map (\<lambda>_. []) (py_range (num_players g))"
    "p_num_players s0 = num_players g" "p_hand_length s0 = hand_length g"
    by (auto simp: new_initial_state_def LiarsPokerState_init_def Let_def split: sum.splits)
  from apply_actions_keeps_is_terminal[OF run] f
  have t: "p_is_terminal s = base_is_terminal" by simp
  show ?thesis
  proof (cases base_is_terminal)
    case None
    with t show ?thesis by (simp add: current_player_def)
  next
    case (Some b)
    show ?thesis
    proof (cases b)
      case True
      with t Some show ?thesis by (simp add: current_player_def)
    next
      case False
      have "p_is_terminal s0 = Some False" using f Some False by simp
      moreover have "length (hands s0) = nat (p_num_players s0)"
        using f g by (simp add: py_range_def py_range2_def)
      moreover have "hands s0 ! nat (p_num_players s0 - 1) = []"
        using f g by (simp add: py_range_def py_range2_def)
      moreover have "2 \<le> p_num_players s0" "0 < p_hand_length s0" using f g by simp_all
      ultimately have
        "apply_actions s0 as = Inr (s0\<lparr>hands := (hands s0)[0 := hands s0 ! 0 @ as]\<rparr>) \<and>
         current_player (s0\<lparr>hands := (hands s0)[0 := hands s0 ! 0 @ as]\<rparr>) = Inr CHANCE"
        using f(2) by (intro dealing_never_ends)
      with run show ?thesis by auto
    qed
  qed
qed

text \<open>
  C3 (the claim: applying \<open>CHALLENGE\<close> records the challenge, counts it, resolves the
  game when the quorum is reached and otherwise passes the turn). Take the state in
  which the bid 0 of player 0 stands, player 1 has challenged and player 0 is to act.
  As an object of the class it has neither \<^verbatim>\<open>_is_terminal\<close> nor \<^verbatim>\<open>actions\<close>, and
  applying \<open>CHALLENGE\<close> raises \<^verbatim>\<open>AttributeError\<close>; it raises as well when only
  one of the two attributes is missing. Nothing is recorded, counted or resolved.
\<close>

theorem challenge_raises_attribute_error:
  "apply_action (challenged_once 0\<lparr>p_is_terminal := None, actions := None\<rparr>) CHALLENGE =
     Inl AttributeError \<and>
   apply_action (challenged_once 0\<lparr>p_is_terminal := None\<rparr>) CHALLENGE = Inl AttributeError \<and>
   apply_action (challenged_once 0\<lparr>actions := None\<rparr>) CHALLENGE = Inl AttributeError"
  by (simp add: example_defs step_defs)

subsection \<open>C4: the first bid of a block\<close>

text \<open>
  \<^verbatim>\<open>_decode_bid\<close> takes the count as \<^verbatim>\<open>bid % (hand_length * num_players)\<close>, which
  is 0 at the first identifier of every block. \<^verbatim>\<open>_counts\<close> lets the originator win
  when the matches are at least the count, so on such a bid the originator wins
  whatever the hands hold.
\<close>

lemma block_start_wins:
  assumes wf: "well_formed s" and k: "0 \<le> k"
    and b: "p_current_bid s = k * (p_hand_length s * p_num_players s)"
  shows "counts s = Inr (s\<lparr>p_winner := p_bid_originator s\<rparr>)"
proof -
  have "0 < p_hand_length s * p_num_players s" using wf by (simp add: well_formed_def)
  with k have "0 \<le> k * (p_hand_length s * p_num_players s)" by simp
  then have nb: "p_current_bid s \<noteq> - 1" using b by simp
  have "p_current_bid s mod (p_hand_length s * p_num_players s) = 0" using b by simp
  moreover have "0 \<le> occurrences s d" for d by (simp add: occurrences_def)
  ultimately show ?thesis using counts_ok[OF wf nb] by simp
qed

text \<open>
  C4 (the claim: the first identifier of a block stands for one occurrence, so the
  originator wins on it exactly when the block's digit occurs at least once). In
  \<open>challenged_once 2\<close> both hands are \<open>[1]\<close>, player 0 has bid 2, the first
  identifier of the block of the digit 2, and player 1 has challenged. The bid is
  decoded to the count 0; the digit 2 occurs in no hand; the challenge of player 0
  ends the game with player 0, the originator, the winner. The last line is the example
  of the docstring of \<^verbatim>\<open>_decode_bid\<close> (two players with two digits each, deck 1, 2,
  3), which names the identifier 10 "three 3's": it is decoded to the count 2.
\<close>

theorem block_start_bid_always_wins:
  "decode_bid (challenged_once 2) 2 = Inr (0, 2) \<and>
   occurrences (challenged_once 2) 2 = 0 \<and>
   apply_action (challenged_once 2) CHALLENGE = Inr (resolved 2) \<and>
   p_winner (resolved 2) = p_bid_originator (challenged_once 2) \<and>
   p_loser (resolved 2) = - 1 \<and>
   decode_bid (dealt\<lparr>p_hand_length := 2, p_num_digits := 3, p_deck := [1, 2, 3]\<rparr>) 10 =
     Inr (2, 3)"
  by (simp add: occurrences_def example_defs step_defs upto_0_1)

subsection \<open>C5: the current actor\<close>

text \<open>
  \<^verbatim>\<open>current_player\<close> does not read \<^verbatim>\<open>_game_over\<close>, the flag that
  \<^verbatim>\<open>_apply_action\<close> sets and \<^verbatim>\<open>is_terminal\<close> returns: its first test is on
  \<^verbatim>\<open>self._is_terminal\<close>.
\<close>

lemma current_player_game_over:
  "current_player (s\<lparr>p_game_over := b\<rparr>) = current_player s"
  by (simp add: current_player_def split: option.splits sum.splits)

text \<open>
  C5 (the claim: \<open>currentActor()\<close> never fails, reports the terminal marker when the
  game is over, the chance marker while a hand is incomplete, and the current player
  otherwise). Whatever the attribute \<^verbatim>\<open>_is_terminal\<close> is, a state is classified
  wrongly: with the attribute missing the call raises on the initial state; with the
  attribute true the initial state, in which no digit is dealt, is reported terminal;
  with the attribute false the state \<open>resolved 0\<close>, which \<^verbatim>\<open>_apply_action\<close>
  gives when the second challenge ends the game, is reported as player 1's turn.
\<close>

theorem current_player_reads_no_game_over:
  "current_player (fresh\<lparr>p_is_terminal := None\<rparr>) = Inl AttributeError \<and>
   current_player (fresh\<lparr>p_is_terminal := Some True\<rparr>) = Inr TERMINAL \<and>
   apply_action (challenged_once 0) CHALLENGE = Inr (resolved 0) \<and>
   is_terminal (resolved 0) \<and> current_player (resolved 0) = Inr (Player 1)"
  by (simp add: is_terminal_def example_defs step_defs upto_0_1)

subsection \<open>C6: legal actions\<close>

lemma sorted_wrt_less_upto: "sorted_wrt (<) [i..j]"
  by (simp add: strict_sorted_iff)

text \<open>
  The list \<^verbatim>\<open>_legal_actions\<close> returns, for every state and every player \<open>p \<ge> 0\<close>:
  bids, followed by the entry \<open>CHALLENGE\<close> exactly when a bid stands. If \<open>p\<close> differs
  from the field \<^verbatim>\<open>_bid_originator\<close>, or a rebid is possible, the bids are the
  identifiers above the current bid and below \<open>total_bids\<close>; they are always strictly
  increasing and above the current bid.
\<close>

lemma legal_actions_shape:
  assumes "0 \<le> p"
  shows "\<exists>bids. legal_actions s p =
            Inr (bids @ (if p_current_bid s \<noteq> - 1 then [CHALLENGE] else [])) \<and>
     (p \<noteq> p_bid_originator s \<or>
      (p_num_challenges s = p_num_players s - 1 \<and> \<not> is_rebid s) \<longrightarrow>
        (\<forall>b. p_current_bid s < b \<and> b < total_bids s \<longrightarrow> b \<in> set bids)) \<and>
     (\<forall>b\<in>set bids. p_current_bid s < b \<and> b < total_bids s) \<and>
     sorted_wrt (<) bids"
proof (cases "p \<noteq> p_bid_originator s \<or> is_rebid_possible s")
  case True
  let ?bids = "py_range2 (p_current_bid s + 1) (total_bids s)"
  have "legal_actions s p = Inr (?bids @ (if p_current_bid s \<noteq> - 1 then [CHALLENGE] else []))"
    using assms True by (simp add: legal_actions_def is_challenge_possible_def total_bids_def)
  moreover have "\<forall>b. (b \<in> set ?bids) = (p_current_bid s < b \<and> b < total_bids s)"
    by (auto simp: py_range2_def)
  moreover have "sorted_wrt (<) ?bids"
    unfolding py_range2_def by (rule sorted_wrt_less_upto)
  ultimately show ?thesis by blast
next
  case False
  then have "legal_actions s p = Inr ([] @ (if p_current_bid s \<noteq> - 1 then [CHALLENGE] else []))"
    using assms by (simp add: legal_actions_def is_challenge_possible_def)
  moreover from False have "\<not> (p \<noteq> p_bid_originator s \<or>
      (p_num_challenges s = p_num_players s - 1 \<and> \<not> is_rebid s))"
    by (auto simp: is_rebid_possible_def)
  ultimately show ?thesis by (intro exI[of _ "[]"]) auto
qed

text \<open>
  \<^verbatim>\<open>__init__\<close> sets \<^verbatim>\<open>_bid_originator\<close> to 0, the player who acts first, although
  nobody has bid. So in the initial state of a game of two or more players, and in
  every state that differs from it in the hands only, the player to act is taken for
  the originator of a bid and gets no action at all.
\<close>

lemma first_mover_has_no_legal_action:
  assumes "new_initial_state g base_is_terminal base_actions = Inr s0" "2 \<le> num_players g"
  shows "legal_actions (s0\<lparr>hands := hs\<rparr>) (p_current_player s0) = Inr []"
proof -
  from assms(1) have "p_current_player s0 = 0" "p_bid_originator s0 = 0" "p_current_bid s0 = - 1"
    "\<not> is_rebid s0" "p_num_challenges s0 = 0" "p_num_players s0 = num_players g"
    by (auto simp: new_initial_state_def LiarsPokerState_init_def Let_def split: sum.splits)
  with assms(2) show ?thesis
    by (simp add: legal_actions_def is_rebid_possible_def is_challenge_possible_def)
qed

text \<open>
  C6 (the claim: a player who is not the bid originator may bid every identifier
  above the current bid, all of \<open>[0, total_bids)\<close> when no bid stands, and
  \<open>CHALLENGE\<close> is contained exactly when a bid stands). In \<open>dealt\<close> both hands are
  full, no bid stands (the current bid is \<open>-1\<close>), so nobody has made a bid, and
  player 0 is to act: the four identifiers 0 to 3 should be legal, and the list is
  empty. It is empty in the initial state as well. For player 1 the list in \<open>dealt\<close>
  is the four bids, of which the second is the integer \<open>CHALLENGE\<close>, although no bid
  stands.
\<close>

theorem first_player_has_no_bid:
  "p_current_bid dealt = - 1 \<and> p_current_player dealt = 0 \<and> total_bids dealt = 4 \<and>
   current_player dealt = Inr (Player 0) \<and>
   legal_actions dealt 0 = Inr [] \<and>
   new_initial_state small_game None None = Inr (fresh\<lparr>p_is_terminal := None, actions := None\<rparr>) \<and>
   legal_actions (fresh\<lparr>p_is_terminal := None, actions := None\<rparr>) 0 = Inr [] \<and>
   legal_actions dealt 1 = Inr [0, CHALLENGE, 2, 3]"
  by (simp add: legal_actions_def is_rebid_possible_def is_challenge_possible_def total_bids_def
      new_initial_state_def LiarsPokerState_init_def np_zeros2_def current_player_def
      getitem_def py_index_def py_range_def py_range2_def example_defs upto.simps
      numeral_2_eq_2 numeral_eq_Suc)

theorem first_player_has_no_bid_witness:
  "legal_actions dealt 0 = Inr [] \<and> p_current_bid dealt = - 1 \<and> (0::int) < total_bids dealt"
  using first_player_has_no_bid by simp

subsection \<open>C7: construction\<close>

text \<open>
  C7 (the claim: construction succeeds and records the parameters when the player
  count is in \<open>[2, 10]\<close> and the hand length and digit count are positive, and fails
  with \<open>InvalidConfiguration\<close> otherwise). The first statement of
  \<^verbatim>\<open>LiarsPoker.__init__\<close> after the base constructor calls
  \<^verbatim>\<open>params.get("num_digits", default=_NUM_DIGITS)\<close>, which raises \<^verbatim>\<open>TypeError\<close>. So
  the construction with two players, hands of one digit and two digits in the deck
  fails, as does the one with no parameter given and the one with a single player;
  with \<^verbatim>\<open>params=None\<close> it is \<^verbatim>\<open>AttributeError\<close>. No configuration is recorded and
  none is refused for its values.
\<close>

theorem construction_raises:
  "LiarsPoker_init (Some small_params) = Inl TypeError \<and>
   LiarsPoker_init (Some Map.empty) = Inl TypeError \<and>
   LiarsPoker_init (Some [''num_players'' \<mapsto> 1]) = Inl TypeError \<and>
   LiarsPoker_init None = Inl AttributeError"
  by (simp add: LiarsPoker_init_def params_get_def)

subsection \<open>C8: the observation tensor\<close>

text \<open>
  \<^verbatim>\<open>set_from\<close> writes the tensor in one place only, the cell of the viewing player;
  every other assignment binds a key of \<^verbatim>\<open>self.dict\<close> to a new object and leaves the
  tensor alone. So whenever \<^verbatim>\<open>set_from\<close> returns, the tensor has its length from
  construction and is zero but for at most one cell.
\<close>

lemma rebind_tensor: "tensor (rebind k v obs) = tensor obs"
  by (simp add: rebind_def)

lemma set_from_tensor:
  assumes "set_from obs s player = Inr obs'"
  shows "\<exists>k. tensor obs' = (replicate (length (tensor obs)) 0)[k := 1]"
proof -
  let ?o0 = "obs\<lparr>tensor := replicate (length (tensor obs)) 0\<rparr>"
  from assms obtain o1 where
    o1: "(if has_key (dict ?o0) ''player'' then set_player ?o0 player else Inr ?o0) = Inr o1"
    and t: "tensor obs' = tensor o1"
    by (auto simp: set_from_def Let_def rebind_tensor split: sum.splits if_splits)
  have "\<exists>k. tensor o1 = (replicate (length (tensor obs)) 0)[k := 1]"
  proof (cases "has_key (dict ?o0) ''player''")
    case True
    with o1 show ?thesis
      by (auto simp: set_player_def split: option.splits entry.splits sum.splits)
  next
    case False
    with o1 have "tensor o1 = (replicate (length (tensor obs)) 0)[length (tensor obs) := 1]"
      by (auto simp: list_update_beyond)
    then show ?thesis ..
  qed
  with t show ?thesis by simp
qed

text \<open>
  C8 (the claim: the tensor's size is fixed, and the private-hand block is zero until
  the viewer's hand is complete and equals the hand from then on). The observer
  \<open>private_observer\<close> has a private-hand block. On \<open>dealt\<close>, where the hand of
  player 0 is complete, \<^verbatim>\<open>set_from\<close> raises \<^verbatim>\<open>AttributeError\<close> at
  \<^verbatim>\<open>self.hands\<close>; the block is never set to the hand. On \<open>fresh\<close>, where the hand
  is empty, it returns and the block is zero; the rebid flag, too, stays zero in the
  tensor when the state is in a rebid.
\<close>

theorem set_from_private_hand_fails:
  "tensor private_observer = [0, 0, 0, 0, 0] \<and>
   has_key (dict private_observer) ''private_hand'' \<and>
   hands dealt = [[1], [1]] \<and>
   set_from private_observer dealt 0 = Inl AttributeError \<and>
   map_sum id tensor (set_from private_observer fresh 0) = Inr [1, 0, 0, 0, 0] \<and>
   map_sum id tensor (set_from private_observer (fresh\<lparr>is_rebid := True\<rparr>) 0) =
     Inr [1, 0, 0, 0, 0]"
  by (simp add: private_observer_def LiarsPokerObserver_init_def pieces_def set_from_def
      has_key_def set_player_def rebind_def example_defs getitem_def py_index_def
      numeral_eq_Suc)

subsection \<open>C9: returns\<close>

lemma sum_list_one_out:
  fixes a b :: int
  assumes "0 \<le> k" "k < n"
  shows "sum_list (map (\<lambda>i. if i \<noteq> k then b else a) [0..n - 1]) = a + (n - 1) * b"
proof -
  have "sum_list (map (\<lambda>i. if i \<noteq> k then b else a) [0..n - 1]) =
        (\<Sum>i\<in>{0..n - 1}. if i \<noteq> k then b else a)"
    by (simp add: interv_sum_list_conv_sum_set_int)
  also have "\<dots> = (\<Sum>i\<in>{0..n - 1}. b + (if i = k then a - b else 0))"
    by (rule sum.cong) auto
  also have "\<dots> = (\<Sum>i\<in>{0..n - 1}. b) + (\<Sum>i\<in>{0..n - 1}. if i = k then a - b else 0)"
    by (rule sum.distrib)
  also have "(\<Sum>i\<in>{0..n - 1}. if i = k then a - b else 0) = a - b"
    using assms by (simp add: sum.delta)
  also have "(\<Sum>i\<in>{0..n - 1}. b) = n * b"
    using assms by simp
  finally show ?thesis by (simp add: algebra_simps)
qed

lemma map_const_upto: "0 \<le> n \<Longrightarrow> map (\<lambda>i. c) [0..n - 1] = replicate (nat n) c"
  by (rule nth_equalityI) (auto simp: nth_upto)

text \<open>
  C9. In a well-formed state: if the game is over, a winner or a loser is set; with the
  winner set \<^verbatim>\<open>returns\<close> gives the bid originator \<open>num_players - 1\<close> and everybody
  else \<open>-1\<close>; with the loser set it gives the originator \<open>-(num_players - 1)\<close> and
  everybody else \<open>1\<close>; in both cases the entries sum to 0. If the game is not over,
  all \<open>num_players\<close> entries are 0.
\<close>

theorem returns_zero_sum:
  assumes "well_formed s"
  shows "(is_terminal s \<longrightarrow> p_winner s \<noteq> - 1 \<or> p_loser s \<noteq> - 1) \<and>
     (is_terminal s \<and> p_winner s \<noteq> - 1 \<longrightarrow>
        returns s = map (\<lambda>i. if i = p_bid_originator s then p_num_players s - 1 else - 1)
                      [0..p_num_players s - 1]) \<and>
     (is_terminal s \<and> p_loser s \<noteq> - 1 \<longrightarrow>
        returns s = map (\<lambda>i. if i = p_bid_originator s then - (p_num_players s - 1) else 1)
                      [0..p_num_players s - 1]) \<and>
     (is_terminal s \<longrightarrow> sum_list (returns s) = 0) \<and>
     (\<not> is_terminal s \<longrightarrow> returns s = replicate (nat (p_num_players s)) 0)"
proof -
  from assms have o: "0 \<le> p_bid_originator s" "p_bid_originator s < p_num_players s"
    and out: "p_game_over s = (p_winner s \<noteq> - 1 \<or> p_loser s \<noteq> - 1)"
    and ex: "p_winner s = - 1 \<or> p_loser s = - 1"
    by (auto simp: well_formed_def)
  have w: "returns s = map (\<lambda>i. if i \<noteq> p_bid_originator s then - 1 else p_num_players s - 1)
                      [0..p_num_players s - 1]" if "p_winner s \<noteq> - 1"
    using that by (simp add: returns_def py_range_def py_range2_def)
  have l: "returns s = map (\<lambda>i. if i \<noteq> p_bid_originator s then 1 else - (p_num_players s - 1))
                      [0..p_num_players s - 1]" if "p_loser s \<noteq> - 1"
    using that ex by (auto simp: returns_def py_range_def py_range2_def)
  have z: "returns s = replicate (nat (p_num_players s)) 0" if "\<not> p_game_over s"
    using that out o by (simp add: returns_def py_range_def py_range2_def map_const_upto)
  have s0: "sum_list (returns s) = 0" if "p_game_over s"
  proof (cases "p_winner s \<noteq> - 1")
    case True
    show ?thesis unfolding w[OF True] sum_list_one_out[OF o] by simp
  next
    case False
    with that out have lo: "p_loser s \<noteq> - 1" by simp
    show ?thesis unfolding l[OF lo] sum_list_one_out[OF o] by simp
  qed
  have w': "(\<lambda>i. if i \<noteq> p_bid_originator s then - 1 else p_num_players s - 1) =
            (\<lambda>i. if i = p_bid_originator s then p_num_players s - 1 else - 1)" by auto
  have l': "(\<lambda>i. if i \<noteq> p_bid_originator s then 1 else - (p_num_players s - 1)) =
            (\<lambda>i. if i = p_bid_originator s then - (p_num_players s - 1) else 1)" by auto
  show ?thesis
    using out w l z s0 unfolding is_terminal_def w' l' by blast
qed

theorem returns_zero_sum_witness:
  "well_formed (resolved 0) \<and> is_terminal (resolved 0) \<and> p_winner (resolved 0) \<noteq> - 1 \<and>
   returns (resolved 0) = [1, - 1] \<and> sum_list (returns (resolved 0)) = 0 \<and>
   well_formed dealt \<and> \<not> is_terminal dealt \<and> returns dealt = [0, 0]"
proof -
  have h: "well_formed (resolved 0)"
    by (simp add: well_formed_def resolved_def challenged_once_def bid_made_def dealt_def
        total_bids_def matrix_shape_def)
  have d: "well_formed dealt"
    by (simp add: well_formed_def dealt_def total_bids_def matrix_shape_def)
  have t: "is_terminal (resolved 0)" "p_winner (resolved 0) \<noteq> - 1" "\<not> is_terminal dealt"
    by (simp_all add: is_terminal_def resolved_def challenged_once_def bid_made_def dealt_def)
  have u: "[0..1::int] = [0, 1]" "p_bid_originator (resolved 0) = 0"
    "p_num_players (resolved 0) = 2" "p_num_players dealt = 2"
    by (simp_all add: resolved_def challenged_once_def bid_made_def dealt_def upto.simps)
  from returns_zero_sum[OF h] t have "returns (resolved 0) = [1, - 1]"
    "sum_list (returns (resolved 0)) = 0" by (simp_all add: u)
  moreover from returns_zero_sum[OF d] t have "returns dealt = [0, 0]"
    by (simp add: u numeral_2_eq_2)
  ultimately show ?thesis using h d t by simp
qed

subsection \<open>C10: the bid codec\<close>

text \<open>
  C10. In a state whose deck is the first \<open>num_digits\<close> symbols of the full deck
  (\<open>num_digits \<le> 10\<close>), with a positive hand length and player count, every
  identifier \<open>bid\<close> in \<open>[0, total_bids)\<close> is decoded to the count
  \<open>bid mod (hand_length * num_players)\<close> and the digit
  \<open>deck[bid div (hand_length * num_players)]\<close>; encoding the count with the place of
  that digit in the deck gives \<open>bid\<close> back; and the decoder is injective on
  \<open>[0, total_bids)\<close>.
\<close>

theorem decode_encode_bijection:
  assumes dk: "p_deck s = take (nat (p_num_digits s)) FULL_DECK"
    and le: "p_num_digits s \<le> 10"
    and pos: "0 < p_hand_length s" "0 < p_num_players s"
    and bid: "0 \<le> bid" "bid < total_bids s"
  shows "(\<exists>number.
            decode_bid s bid = Inr (bid mod (p_hand_length s * p_num_players s), number) \<and>
            number = p_deck s ! nat (bid div (p_hand_length s * p_num_players s)) \<and>
            encode_bid s (bid mod (p_hand_length s * p_num_players s))
                         (digit_index (p_deck s) number) = bid) \<and>
         inj_on (decode_bid s) {0..<total_bids s}"
proof -
  let ?m = "p_hand_length s * p_num_players s"
  have len: "length (p_deck s) = nat (p_num_digits s)"
    using le by (simp add: dk FULL_DECK_def)
  have dist: "distinct (p_deck s)" unfolding dk using distinct_FULL_DECK by simp
  have m: "0 < ?m" using pos by simp
  have rt: "decode_bid s b = Inr (b mod ?m, p_deck s ! nat (b div ?m)) \<and>
            encode_bid s (b mod ?m) (digit_index (p_deck s) (p_deck s ! nat (b div ?m))) = b"
    if "0 \<le> b" "b < total_bids s" for b
  proof -
    have "b < ?m * p_num_digits s" using that(2) unfolding total_bids_block .
    from div_block_bounds[OF m that(1) this]
    have "0 \<le> b div ?m" "b div ?m < p_num_digits s" by simp_all
    then have "nat (b div ?m) < length (p_deck s)" using len by simp
    from digit_index_nth[OF dist this] \<open>0 \<le> b div ?m\<close>
    have di: "digit_index (p_deck s) (p_deck s ! nat (b div ?m)) = b div ?m" by simp
    have "encode_bid s (b mod ?m) (b div ?m) = b"
      unfolding encode_bid_def by (rule div_mult_mod_eq)
    then show ?thesis
      using decode_bid_ok[OF pos len that] unfolding di by simp
  qed
  have "inj_on (decode_bid s) {0..<total_bids s}"
  proof (rule inj_onI)
    fix x y
    assume x: "x \<in> {0..<total_bids s}" and y: "y \<in> {0..<total_bids s}"
      and e: "decode_bid s x = decode_bid s y"
    from x have rx: "decode_bid s x = Inr (x mod ?m, p_deck s ! nat (x div ?m))"
      "encode_bid s (x mod ?m) (digit_index (p_deck s) (p_deck s ! nat (x div ?m))) = x"
      using rt[of x] by simp_all
    from y have ry: "decode_bid s y = Inr (y mod ?m, p_deck s ! nat (y div ?m))"
      "encode_bid s (y mod ?m) (digit_index (p_deck s) (p_deck s ! nat (y div ?m))) = y"
      using rt[of y] by simp_all
    from e rx(1) ry(1)
    have "x mod ?m = y mod ?m" "p_deck s ! nat (x div ?m) = p_deck s ! nat (y div ?m)"
      by simp_all
    then have "encode_bid s (x mod ?m) (digit_index (p_deck s) (p_deck s ! nat (x div ?m))) =
               encode_bid s (y mod ?m) (digit_index (p_deck s) (p_deck s ! nat (y div ?m)))"
      by simp
    then show "x = y" unfolding rx(2) ry(2) .
  qed
  with rt[OF bid] show ?thesis by simp
qed

theorem decode_encode_bijection_witness:
  "p_deck dealt = take (nat (p_num_digits dealt)) FULL_DECK \<and> p_num_digits dealt \<le> 10 \<and>
   0 < p_hand_length dealt \<and> 0 < p_num_players dealt \<and>
   (0::int) \<le> 3 \<and> 3 < total_bids dealt \<and>
   decode_bid dealt 3 = Inr (1, 2) \<and> encode_bid dealt 1 (digit_index [1, 2] 2) = 3 \<and>
   inj_on (decode_bid dealt) {0..<4}"
proof -
  have h: "p_deck dealt = take (nat (p_num_digits dealt)) FULL_DECK" "p_num_digits dealt \<le> 10"
    "0 < p_hand_length dealt" "0 < p_num_players dealt"
    "(0::int) \<le> 3" "3 < total_bids dealt"
    by (simp_all add: dealt_def total_bids_def FULL_DECK_def)
  have t: "total_bids dealt = 4" "p_hand_length dealt * p_num_players dealt = 2"
    "p_deck dealt = [1, 2]"
    by (simp_all add: dealt_def total_bids_def)
  have r: "decode_bid dealt 3 = Inr (1, 2)" "encode_bid dealt 1 (digit_index [1, 2] 2) = 3"
    "inj_on (decode_bid dealt) {0..<4}"
    using decode_encode_bijection[OF h] by (simp_all add: t)
  show ?thesis by (intro conjI; fact h r)
qed

end
